theory Spec2Isabelle
  imports Main "HOL-Library.Word"
begin

section \<open>JavaScript strings\<close>

text \<open>
  A JavaScript string is a sequence of UTF-16 code units. The regular expressions of the
  source carry no \<open>u\<close> flag, so they too work on code units, one at a time.
  \<open>js\<close> writes an ASCII literal as such a sequence.
\<close>

type_synonym jschar = "16 word"
type_synonym jsstring = "jschar list"

definition js :: "string \<Rightarrow> jsstring" where
  "js s = map of_char s"

text \<open>
  The code units that \<open>String.prototype.trim\<close> strips and that \<open>\s\<close> matches:
  ECMAScript's WhiteSpace and LineTerminator.
\<close>

definition is_line_terminator :: "jschar \<Rightarrow> bool" where
  "is_line_terminator c = (c = 0x0A \<or> c = 0x0D \<or> c = 0x2028 \<or> c = 0x2029)"

definition is_space :: "jschar \<Rightarrow> bool" where
  "is_space c =
     (c = 0x09 \<or> c = 0x0B \<or> c = 0x0C \<or> c = 0x20 \<or> c = 0xA0 \<or> c = 0x1680
      \<or> (0x2000 \<le> c \<and> c \<le> 0x200A) \<or> c = 0x202F \<or> c = 0x205F \<or> c = 0x3000
      \<or> c = 0xFEFF \<or> is_line_terminator c)"

definition is_digit :: "jschar \<Rightarrow> bool" where
  "is_digit c = (0x30 \<le> c \<and> c \<le> 0x39)"

definition is_upper :: "jschar \<Rightarrow> bool" where
  "is_upper c = (0x41 \<le> c \<and> c \<le> 0x5A)"

definition is_lower :: "jschar \<Rightarrow> bool" where
  "is_lower c = (0x61 \<le> c \<and> c \<le> 0x7A)"

text \<open>\<open>\w\<close> is \<open>[A-Za-z0-9_]\<close>.\<close>

definition is_word :: "jschar \<Rightarrow> bool" where
  "is_word c = (is_lower c \<or> is_upper c \<or> is_digit c \<or> c = 0x5F)"

text \<open>\<open>.\<close> without the \<open>s\<close> flag: any code unit but a line terminator.\<close>

definition dot :: "jschar \<Rightarrow> bool" where
  "dot c = (\<not> is_line_terminator c)"

definition trim :: "jsstring \<Rightarrow> jsstring" where
  "trim s = rev (dropWhile is_space (rev (dropWhile is_space s)))"

section \<open>A backtracking matcher for the regular expressions of the source\<close>

text \<open>
  The fragment of the regular expression language that the source uses: character
  classes, sequence, ordered alternative, the greedy star, capture groups and the end
  anchor \<open>$\<close> (no \<open>m\<close> flag: end of input only).
\<close>

datatype re =
    Cls "jschar \<Rightarrow> bool"
  | Eps
  | Seq re re
  | Alt re re
  | Star re
  | Cap nat re
  | Eoi

type_synonym caps = "nat \<rightharpoonup> jsstring"

text \<open>
  \<open>rmatch r s c\<close> lists, in the order in which a backtracking matcher tries them, every
  way of matching \<open>r\<close> at the start of \<open>s\<close>: the input left over and the captures. As in
  ECMAScript, a star gives up an iteration that consumed nothing.
\<close>

function rmatch :: "re \<Rightarrow> jsstring \<Rightarrow> caps \<Rightarrow> (jsstring \<times> caps) list" where
  "rmatch (Cls p) s c = (case s of [] \<Rightarrow> [] | x # xs \<Rightarrow> if p x then [(xs, c)] else [])"
| "rmatch Eps s c = [(s, c)]"
| "rmatch (Seq r1 r2) s c = concat (map (\<lambda>(s', c'). rmatch r2 s' c') (rmatch r1 s c))"
| "rmatch (Alt r1 r2) s c = rmatch r1 s c @ rmatch r2 s c"
| "rmatch (Star r) s c =
     concat (map (\<lambda>(s', c'). if length s' < length s then rmatch (Star r) s' c' else [])
                 (rmatch r s c)) @ [(s, c)]"
| "rmatch (Cap i r) s c =
     map (\<lambda>(s', c'). (s', c'(i \<mapsto> take (length s - length s') s))) (rmatch r s c)"
| "rmatch Eoi s c = (if s = [] then [(s, c)] else [])"
  by pat_completeness auto
termination
  by (relation "measures [\<lambda>(r, s, c). size r, \<lambda>(r, s, c). length s]") auto

text \<open>The equation of the star unfolds without end: it is applied by hand.\<close>

declare rmatch.simps(5) [simp del]

text \<open>Derived forms: a literal, a literal under the \<open>i\<close> flag, \<open>+\<close>, \<open>?\<close>, \<open>{n}\<close>.\<close>

fun lit :: "jsstring \<Rightarrow> re" where
  "lit [] = Eps"
| "lit (x # xs) = Seq (Cls (\<lambda>c. c = x)) (lit xs)"

text \<open>
  Without the \<open>u\<close> flag, the \<open>i\<close> flag compares code units after mapping each to upper
  case, and never lets a code unit from 128 on meet one below 128. Against the ASCII
  characters of a pattern that is the comparison of ASCII letters up to case.
\<close>

definition canon :: "jschar \<Rightarrow> jschar" where
  "canon c = (if is_lower c then c - 0x20 else c)"

fun liti :: "jsstring \<Rightarrow> re" where
  "liti [] = Eps"
| "liti (x # xs) = Seq (Cls (\<lambda>c. canon c = canon x)) (liti xs)"

definition Plus :: "re \<Rightarrow> re" where
  "Plus r = Seq r (Star r)"

definition Opt :: "re \<Rightarrow> re" where
  "Opt r = Alt r Eps"

fun rep :: "nat \<Rightarrow> re \<Rightarrow> re" where
  "rep 0 r = Eps"
| "rep (Suc n) r = Seq r (rep n r)"

text \<open>
  \<open>String.prototype.match\<close> with a regular expression that is not global: the first
  start position, from the left, at which the expression matches, and there the first
  way of matching it. The result is the matched text and the captures.
\<close>

fun re_exec :: "re \<Rightarrow> jsstring \<Rightarrow> (jsstring \<times> caps) option" where
  "re_exec r [] = (case rmatch r [] Map.empty of [] \<Rightarrow> None | (s', c) # _ \<Rightarrow> Some ([], c))"
| "re_exec r (x # xs) =
     (case rmatch r (x # xs) Map.empty of
        [] \<Rightarrow> re_exec r xs
      | (s', c) # _ \<Rightarrow> Some (take (length (x # xs) - length s') (x # xs), c))"

definition re_test :: "re \<Rightarrow> jsstring \<Rightarrow> bool" where
  "re_test r s = (re_exec r s \<noteq> None)"

section \<open>video-utils.ts\<close>

datatype VideoType = YouTube | Vimeo | Direct | Unknown

record VideoInfo =
  type :: VideoType
  url :: jsstring
  embedUrl :: "jsstring option"
  videoId :: "jsstring option"

text \<open>
  \<^verbatim>\<open>/(?:youtube\.com\/(?:[^\/]+\/.+\/|(?:v|e(?:mbed)?)\/|.*[?&]v=)|youtu\.be\/)([^"&?\/\s]{11})/\<close>
\<close>

definition youtubeHead :: re where
  "youtubeHead =
     Alt (Seq (lit (js ''youtube.com/''))
              (Alt (Seq (Plus (Cls (\<lambda>c. c \<noteq> 0x2F)))
                        (Seq (lit (js ''/'')) (Seq (Plus (Cls dot)) (lit (js ''/'')))))
              (Alt (Seq (Alt (lit (js ''v''))
                             (Seq (lit (js ''e'')) (Opt (lit (js ''mbed'')))))
                        (lit (js ''/'')))
                   (Seq (Star (Cls dot))
                        (Seq (Cls (\<lambda>c. c = 0x3F \<or> c = 0x26)) (lit (js ''v='')))))))
         (lit (js ''youtu.be/''))"

text \<open>The class \<^verbatim>\<open>[^"&?\/\s]\<close> of the identifier.\<close>

definition youtubeIdChar :: "jschar \<Rightarrow> bool" where
  "youtubeIdChar c = (\<not> (c = 0x22 \<or> c = 0x26 \<or> c = 0x3F \<or> c = 0x2F \<or> is_space c))"

definition youtubeRegex :: re where
  "youtubeRegex = Seq youtubeHead (Cap 1 (rep 11 (Cls youtubeIdChar)))"

text \<open>
  \<^verbatim>\<open>/vimeo\.com\/(?:channels\/(?:\w+\/)?|groups\/(?:[^\/]*)\/videos\/|album\/(?:\d+)\/video\/|video\/|)(\d+)(?:|\/\?)/\<close>
\<close>

definition vimeoHead :: re where
  "vimeoHead =
     Seq (lit (js ''vimeo.com/''))
         (Alt (Seq (lit (js ''channels/'')) (Opt (Seq (Plus (Cls is_word)) (lit (js ''/'')))))
         (Alt (Seq (lit (js ''groups/''))
                   (Seq (Star (Cls (\<lambda>c. c \<noteq> 0x2F))) (lit (js ''/videos/''))))
         (Alt (Seq (lit (js ''album/'')) (Seq (Plus (Cls is_digit)) (lit (js ''/video/''))))
         (Alt (lit (js ''video/''))
              Eps))))"

definition vimeoRegex :: re where
  "vimeoRegex =
     Seq vimeoHead (Seq (Cap 1 (Plus (Cls is_digit))) (Alt Eps (lit (js ''/?''))))"

text \<open>\<^verbatim>\<open>/\.(mp4|webm|ogg|mov)(\?.*)?$/i\<close>\<close>

definition videoExtensions :: re where
  "videoExtensions =
     Seq (liti (js ''.''))
    (Seq (Cap 1 (Alt (liti (js ''mp4'')) (Alt (liti (js ''webm''))
                (Alt (liti (js ''ogg'')) (liti (js ''mov''))))))
    (Seq (Opt (Cap 2 (Seq (liti (js ''?'')) (Star (Cls dot)))))
         Eoi))"

text \<open>A capture inside a template literal: \<open>undefined\<close> prints as that word.\<close>

definition tmpl :: "jsstring option \<Rightarrow> jsstring" where
  "tmpl v = (case v of None \<Rightarrow> js ''undefined'' | Some s \<Rightarrow> s)"

definition parseVideoUrl :: "jsstring \<Rightarrow> VideoInfo" where
  "parseVideoUrl u =
     (if u = [] then \<lparr>type = Unknown, url = [], embedUrl = None, videoId = None\<rparr>
      else let cleanUrl = trim u in
        case re_exec youtubeRegex cleanUrl of
          Some (m0, youtubeMatch) \<Rightarrow>
            \<lparr>type = YouTube, url = cleanUrl,
             embedUrl = Some (js ''https://www.youtube.com/embed/'' @ tmpl (youtubeMatch 1)
                              @ js ''?rel=0&modestbranding=1''),
             videoId = youtubeMatch 1\<rparr>
        | None \<Rightarrow>
            (case re_exec vimeoRegex cleanUrl of
               Some (m0, vimeoMatch) \<Rightarrow>
                 \<lparr>type = Vimeo, url = cleanUrl,
                  embedUrl = Some (js ''https://player.vimeo.com/video/'' @ tmpl (vimeoMatch 1)),
                  videoId = vimeoMatch 1\<rparr>
             | None \<Rightarrow>
                 if re_test videoExtensions cleanUrl
                 then \<lparr>type = Direct, url = cleanUrl, embedUrl = None, videoId = None\<rparr>
                 else \<lparr>type = Unknown, url = cleanUrl, embedUrl = None, videoId = None\<rparr>))"

text \<open>A string is truthy when it is present and not empty.\<close>

definition truthy :: "jsstring option \<Rightarrow> bool" where
  "truthy v = (case v of None \<Rightarrow> False | Some s \<Rightarrow> s \<noteq> [])"

definition getVideoThumbnail :: "VideoInfo \<Rightarrow> jsstring option" where
  "getVideoThumbnail videoInfo =
     (if type videoInfo = YouTube \<and> truthy (videoId videoInfo)
      then Some (js ''https://img.youtube.com/vi/'' @ tmpl (videoId videoInfo)
                 @ js ''/maxresdefault.jpg'')
      else if type videoInfo = Vimeo \<and> truthy (videoId videoInfo) then None
      else None)"

definition isValidVideoUrl :: "jsstring \<Rightarrow> bool" where
  "isValidVideoUrl u = (type (parseVideoUrl u) \<noteq> Unknown)"

section \<open>Strings, arrays and numbers of the standard library\<close>

text \<open>
  \<open>String.prototype.split\<close> with a string separator: the pieces between the
  occurrences of the separator, found from the left without overlap. The empty
  separator cuts the string into its code units.
\<close>

fun split_from :: "jsstring \<Rightarrow> jsstring \<Rightarrow> jsstring \<Rightarrow> jsstring list" where
  "split_from sep acc [] = [rev acc]"
| "split_from sep acc (x # xs) =
     (if sep \<noteq> [] \<and> take (length sep) (x # xs) = sep
      then rev acc # split_from sep [] (drop (length sep) (x # xs))
      else split_from sep (x # acc) xs)"

definition js_split :: "jsstring \<Rightarrow> jsstring \<Rightarrow> jsstring list" where
  "js_split sep s = (if sep = [] then map (\<lambda>c. [c]) s else split_from sep [] s)"

text \<open>\<open>Array.prototype.join\<close>.\<close>

fun js_join :: "jsstring \<Rightarrow> jsstring list \<Rightarrow> jsstring" where
  "js_join sep [] = []"
| "js_join sep [x] = x"
| "js_join sep (x # y # ys) = x @ sep @ js_join sep (y # ys)"

text \<open>\<open>String.prototype.includes\<close>: the empty string is included in every string.\<close>

fun js_includes :: "jsstring \<Rightarrow> jsstring \<Rightarrow> bool" where
  "js_includes [] sub = (sub = [])"
| "js_includes (x # xs) sub = (take (length sub) (x # xs) = sub \<or> js_includes xs sub)"

text \<open>Reading an array at an index: \<open>undefined\<close> out of range.\<close>

definition at_index :: "'a list \<Rightarrow> nat \<Rightarrow> 'a option" where
  "at_index xs i = (if i < length xs then Some (xs ! i) else None)"

text \<open>
  A number in a template literal. The numbers printed here are counts of milliseconds
  and of megabytes: natural numbers, printed in decimal.
\<close>

definition digit_char :: "nat \<Rightarrow> jschar" where
  "digit_char d = of_nat (48 + d)"

function number_to_string :: "nat \<Rightarrow> jsstring" where
  "number_to_string n =
     (if n < 10 then [digit_char n] else number_to_string (n div 10) @ [digit_char (n mod 10)])"
  by pat_completeness auto
termination
  by (relation "measure id") auto

declare number_to_string.simps [simp del]

text \<open>
  \<open>String.prototype.replace\<close> with a global pattern that is one character class:
  every code unit of the class is replaced.
\<close>

definition replace_class :: "(jschar \<Rightarrow> bool) \<Rightarrow> jsstring \<Rightarrow> jsstring \<Rightarrow> jsstring" where
  "replace_class p r s = concat (map (\<lambda>c. if p c then r else [c]) s)"

subsection \<open>decodeURIComponent\<close>

text \<open>
  ECMAScript's Decode with no reserved set. A percent sign opens an octet written as
  two hexadecimal digits; an octet from 128 on opens a UTF-8 sequence of escaped
  octets, which must encode a code point. The result \<open>None\<close> is the URIError thrown.
\<close>

definition hex_val :: "jschar \<Rightarrow> nat option" where
  "hex_val c =
     (if is_digit c then Some (unat c - 48)
      else if 0x41 \<le> c \<and> c \<le> 0x46 then Some (unat c - 55)
      else if 0x61 \<le> c \<and> c \<le> 0x66 then Some (unat c - 87)
      else None)"

definition hex_octet :: "jsstring \<Rightarrow> nat option" where
  "hex_octet s =
     (case s of
        p # h1 # h2 # _ \<Rightarrow>
          if p = 0x25 then
            (case hex_val h1 of
               None \<Rightarrow> None
             | Some a \<Rightarrow> (case hex_val h2 of None \<Rightarrow> None | Some b \<Rightarrow> Some (16 * a + b)))
          else None
      | _ \<Rightarrow> None)"

fun octets :: "nat \<Rightarrow> jsstring \<Rightarrow> nat list option" where
  "octets 0 s = Some []"
| "octets (Suc n) s =
     (case hex_octet s of
        None \<Rightarrow> None
      | Some b \<Rightarrow> (case octets n (drop 3 s) of None \<Rightarrow> None | Some bs \<Rightarrow> Some (b # bs)))"

text \<open>The number of leading one bits of an octet.\<close>

definition leading_ones :: "nat \<Rightarrow> nat" where
  "leading_ones b =
     (if b < 0x80 then 0 else if b < 0xC0 then 1 else if b < 0xE0 then 2
      else if b < 0xF0 then 3 else if b < 0xF8 then 4 else 5)"

definition continuation :: "nat \<Rightarrow> bool" where
  "continuation b = (0x80 \<le> b \<and> b \<le> 0xBF)"

text \<open>The code point of a well-formed UTF-8 sequence of two to four octets.\<close>

definition utf8_code_point :: "nat list \<Rightarrow> nat option" where
  "utf8_code_point bs =
     (case bs of
        [b0, b1] \<Rightarrow>
          if 0xC2 \<le> b0 \<and> b0 \<le> 0xDF \<and> continuation b1
          then Some ((b0 - 0xC0) * 64 + (b1 - 0x80)) else None
      | [b0, b1, b2] \<Rightarrow>
          if 0xE0 \<le> b0 \<and> b0 \<le> 0xEF \<and> continuation b1 \<and> continuation b2
             \<and> (b0 \<noteq> 0xE0 \<or> 0xA0 \<le> b1) \<and> (b0 \<noteq> 0xED \<or> b1 \<le> 0x9F)
          then Some ((b0 - 0xE0) * 4096 + (b1 - 0x80) * 64 + (b2 - 0x80)) else None
      | [b0, b1, b2, b3] \<Rightarrow>
          if 0xF0 \<le> b0 \<and> b0 \<le> 0xF4 \<and> continuation b1 \<and> continuation b2 \<and> continuation b3
             \<and> (b0 \<noteq> 0xF0 \<or> 0x90 \<le> b1) \<and> (b0 \<noteq> 0xF4 \<or> b1 \<le> 0x8F)
          then Some ((b0 - 0xF0) * 262144 + (b1 - 0x80) * 4096 + (b2 - 0x80) * 64 + (b3 - 0x80))
          else None
      | _ \<Rightarrow> None)"

definition utf16 :: "nat \<Rightarrow> jsstring" where
  "utf16 cp =
     (if cp < 0x10000 then [of_nat cp]
      else [of_nat (0xD800 + (cp - 0x10000) div 1024), of_nat (0xDC00 + (cp - 0x10000) mod 1024)])"

fun decodeURIComponent :: "jsstring \<Rightarrow> jsstring option" where
  "decodeURIComponent [] = Some []"
| "decodeURIComponent (c # cs) =
     (if c \<noteq> 0x25 then
        (case decodeURIComponent cs of None \<Rightarrow> None | Some r \<Rightarrow> Some (c # r))
      else
        (case hex_octet (c # cs) of
           None \<Rightarrow> None
         | Some b \<Rightarrow>
             if leading_ones b = 0 then
               (case decodeURIComponent (drop 3 (c # cs)) of
                  None \<Rightarrow> None
                | Some r \<Rightarrow> Some (of_nat b # r))
             else if leading_ones b = 1 \<or> 4 < leading_ones b then None
             else
               (case octets (leading_ones b) (c # cs) of
                  None \<Rightarrow> None
                | Some bs \<Rightarrow>
                    (case utf8_code_point bs of
                       None \<Rightarrow> None
                     | Some cp \<Rightarrow>
                         (case decodeURIComponent (drop (3 * leading_ones b) (c # cs)) of
                            None \<Rightarrow> None
                          | Some r \<Rightarrow> Some (utf16 cp @ r))))))"

section \<open>supabase-storage.ts: the managed backend\<close>

text \<open>
  A thrown \<open>new Error(message)\<close>, or the fault with which the object store's client
  rejects a command: its name, its message and its HTTP status, where present.
\<close>

record s3_fault =
  fault_name :: jsstring
  fault_message :: "jsstring option"
  http_status :: "nat option"

datatype error = Error jsstring | SdkFault s3_fault

record File =
  file_name :: jsstring
  file_size :: nat
  file_type :: jsstring

record UploadProgress =
  loaded :: nat
  total :: nat
  percentage :: nat

datatype bucket = ProductImages | ProductVideos

text \<open>
  What a call does to the world outside, in the order in which it happens: calls of the
  progress callback, requests to the storage service, lines on the console, and the
  callback of the upload form.
\<close>

datatype event =
    Progress UploadProgress
  | StorageUpload bucket jsstring
  | StorageRemove bucket "jsstring list"
  | GetPublicUrl bucket jsstring
  | PutObject jsstring jsstring jsstring
  | DeleteObject jsstring "jsstring option"
  | ConsoleError
  | UploadComplete jsstring

text \<open>
  The storage service of the managed backend is outside the repository. It answers an
  upload with an error message or with the stored path, a removal with an error
  message or nothing, and gives the public address of a path.
\<close>

record supabase =
  upload_response :: "bucket \<Rightarrow> jsstring \<Rightarrow> jsstring + jsstring"
  remove_response :: "bucket \<Rightarrow> jsstring list \<Rightarrow> jsstring option"
  public_url :: "bucket \<Rightarrow> jsstring \<Rightarrow> jsstring"

text \<open>\<^verbatim>\<open>file.name.replace(/[^a-zA-Z0-9.-]/g, '_')\<close>\<close>

definition unsafe_char :: "jschar \<Rightarrow> bool" where
  "unsafe_char c = (\<not> (is_lower c \<or> is_upper c \<or> is_digit c \<or> c = 0x2E \<or> c = 0x2D))"

definition sanitizedFileName :: "File \<Rightarrow> jsstring" where
  "sanitizedFileName file = replace_class unsafe_char (js ''_'') (file_name file)"

text \<open>
  The path under which the managed backend stores a file. \<open>timestamp\<close> is the value
  of \<open>Date.now()\<close>, the milliseconds since the epoch.
\<close>

definition filePath :: "nat \<Rightarrow> File \<Rightarrow> jsstring" where
  "filePath timestamp file = number_to_string timestamp @ js ''-'' @ sanitizedFileName file"

definition uploadFileToSupabase ::
  "supabase \<Rightarrow> nat \<Rightarrow> File \<Rightarrow> bucket \<Rightarrow> bool \<Rightarrow> (error + jsstring) \<times> event list" where
  "uploadFileToSupabase sb timestamp file bkt onProgress =
     (let first = (if onProgress
                   then [Progress \<lparr>loaded = 0, total = file_size file, percentage = 0\<rparr>]
                   else [])
      in case upload_response sb bkt (filePath timestamp file) of
           Inl message \<Rightarrow>
             (Inl (Error (js ''Failed to upload file: '' @ message)),
              first @ [StorageUpload bkt (filePath timestamp file), ConsoleError])
         | Inr path \<Rightarrow>
             (Inr (public_url sb bkt path),
              first @ [StorageUpload bkt (filePath timestamp file)]
              @ (if onProgress
                 then [Progress \<lparr>loaded = file_size file, total = file_size file,
                                 percentage = 100\<rparr>]
                 else [])
              @ [GetPublicUrl bkt path]))"

text \<open>\<open>Array.prototype.pop\<close> on the pieces of the address: the last piece.\<close>

definition pop :: "'a list \<Rightarrow> 'a option" where
  "pop xs = (case rev xs of [] \<Rightarrow> None | x # _ \<Rightarrow> Some x)"

definition deleteFileFromSupabase ::
  "supabase \<Rightarrow> jsstring \<Rightarrow> bucket \<Rightarrow> (error + unit) \<times> event list" where
  "deleteFileFromSupabase sb fileUrl bkt =
     (let fileName = pop (js_split (js ''/'') fileUrl)
      in if \<not> truthy fileName then (Inl (Error (js ''Invalid file URL'')), [])
         else case remove_response sb bkt [tmpl fileName] of
                Some message \<Rightarrow>
                  (Inl (Error (js ''Failed to delete file: '' @ message)),
                   [StorageRemove bkt [tmpl fileName], ConsoleError])
              | None \<Rightarrow> (Inr (), [StorageRemove bkt [tmpl fileName]]))"

section \<open>supabase-storage.ts: the raw object store\<close>

text \<open>
  The environment of the build: each variable is a string or is not set. The client of
  the object store answers a command with nothing or with a fault; reading the file's
  bytes may fail likewise.
\<close>

record env =
  VITE_AWS_REGION :: "jsstring option"
  VITE_AWS_ACCESS_KEY_ID :: "jsstring option"
  VITE_AWS_SECRET_ACCESS_KEY :: "jsstring option"
  VITE_AWS_S3_BUCKET :: "jsstring option"
  VITE_CLOUDFRONT_DOMAIN :: "jsstring option"

record s3Client =
  array_buffer :: "File \<Rightarrow> s3_fault option"
  put_response :: "jsstring \<Rightarrow> jsstring \<Rightarrow> s3_fault option"
  delete_response :: "jsstring \<Rightarrow> jsstring option \<Rightarrow> s3_fault option"

text \<open>\<open>v || ''\<close>\<close>

definition or_empty :: "jsstring option \<Rightarrow> jsstring" where
  "or_empty v = (case v of None \<Rightarrow> [] | Some s \<Rightarrow> s)"

definition bucket :: "env \<Rightarrow> jsstring" where
  "bucket e = or_empty (VITE_AWS_S3_BUCKET e)"

definition cloudFrontDomain :: "env \<Rightarrow> jsstring" where
  "cloudFrontDomain e = or_empty (VITE_CLOUDFRONT_DOMAIN e)"

definition key :: "jsstring \<Rightarrow> nat \<Rightarrow> File \<Rightarrow> jsstring" where
  "key folder timestamp file =
     folder @ js ''/'' @ number_to_string timestamp @ js ''-'' @ sanitizedFileName file"

text \<open>The \<open>catch\<close> of the upload: the fault is told apart by name, message and status.\<close>

definition upload_fault :: "s3_fault \<Rightarrow> error" where
  "upload_fault f =
     (if fault_name f = js ''NetworkingError''
         \<or> (case fault_message f of None \<Rightarrow> False | Some m \<Rightarrow> js_includes m (js ''fetch''))
      then Error (js ''Network error: Unable to connect to AWS S3. Please check:'' @ [0x0A]
                  @ js ''1. Your AWS credentials are correct'' @ [0x0A]
                  @ js ''2. Your S3 bucket has CORS configured'' @ [0x0A]
                  @ js ''3. Your internet connection is stable'')
      else if fault_name f = js ''AccessDenied'' \<or> http_status f = Some 403
      then Error (js ''Access denied: Please check your AWS credentials and S3 bucket permissions'')
      else if fault_name f = js ''InvalidAccessKeyId''
      then Error (js ''Invalid AWS Access Key ID. Please check your credentials in .env'')
      else if fault_name f = js ''SignatureDoesNotMatch''
      then Error (js ''Invalid AWS Secret Access Key. Please check your credentials in .env'')
      else Error (js ''Failed to upload file: ''
                  @ (if truthy (fault_message f) then tmpl (fault_message f)
                     else js ''Unknown error'')))"

definition uploadFileToS3 ::
  "env \<Rightarrow> s3Client \<Rightarrow> nat \<Rightarrow> File \<Rightarrow> jsstring \<Rightarrow> bool \<Rightarrow> (error + jsstring) \<times> event list" where
  "uploadFileToS3 e client timestamp file folder onProgress =
     (if bucket e = [] then
        (Inl (Error (js ''AWS S3 bucket not configured. Please set VITE_AWS_S3_BUCKET in .env'')),
         [])
      else if \<not> truthy (VITE_AWS_REGION e) then
        (Inl (Error (js ''AWS region not configured. Please set VITE_AWS_REGION in .env'')), [])
      else if \<not> truthy (VITE_AWS_ACCESS_KEY_ID e) \<or> \<not> truthy (VITE_AWS_SECRET_ACCESS_KEY e) then
        (Inl (Error (js ''AWS credentials not configured. Please set VITE_AWS_ACCESS_KEY_ID and VITE_AWS_SECRET_ACCESS_KEY in .env'')),
         [])
      else
        let first = (if onProgress
                     then [Progress \<lparr>loaded = 0, total = file_size file, percentage = 0\<rparr>]
                     else [])
        in case array_buffer client file of
             Some f \<Rightarrow> (Inl (upload_fault f), first @ [ConsoleError])
           | None \<Rightarrow>
               (case put_response client (bucket e) (key folder timestamp file) of
                  Some f \<Rightarrow>
                    (Inl (upload_fault f),
                     first @ [PutObject (bucket e) (key folder timestamp file) (file_type file),
                              ConsoleError])
                | None \<Rightarrow>
                    (Inr (if cloudFrontDomain e \<noteq> []
                          then js ''https://'' @ cloudFrontDomain e @ js ''/''
                               @ key folder timestamp file
                          else js ''https://'' @ bucket e @ js ''.s3.''
                               @ tmpl (VITE_AWS_REGION e) @ js ''.amazonaws.com/''
                               @ key folder timestamp file),
                     first @ [PutObject (bucket e) (key folder timestamp file) (file_type file)]
                     @ (if onProgress
                        then [Progress \<lparr>loaded = file_size file, total = file_size file,
                                        percentage = 100\<rparr>]
                        else []))))"

text \<open>
  The key that the deletion reads off an address: \<open>split(...)[1]\<close> is the piece after
  the first occurrence of the separator, and is \<open>undefined\<close> when there is none.
\<close>

definition delete_key :: "env \<Rightarrow> jsstring \<Rightarrow> jsstring option" where
  "delete_key e fileUrl =
     (if js_includes fileUrl (cloudFrontDomain e)
      then at_index (js_split (cloudFrontDomain e @ js ''/'') fileUrl) 1
      else let urlParts = js_split (js ''.amazonaws.com/'') fileUrl
           in if truthy (at_index urlParts 1) then at_index urlParts 1 else Some fileUrl)"

definition deleteFileFromS3 :: "env \<Rightarrow> s3Client \<Rightarrow> jsstring \<Rightarrow> (error + unit) \<times> event list" where
  "deleteFileFromS3 e client fileUrl =
     (if bucket e = [] then (Inl (Error (js ''AWS S3 bucket not configured'')), [])
      else case delete_response client (bucket e) (delete_key e fileUrl) of
             Some f \<Rightarrow> (Inl (SdkFault f), [DeleteObject (bucket e) (delete_key e fileUrl)])
           | None \<Rightarrow> (Inr (), [DeleteObject (bucket e) (delete_key e fileUrl)]))"

section \<open>FileUpload and MediaManager\<close>

text \<open>\<open>err instanceof Error ? err.message : fallback\<close>\<close>

definition message_of :: "error \<Rightarrow> jsstring" where
  "message_of err = (case err of Error m \<Rightarrow> m | SdkFault f \<Rightarrow> tmpl (fault_message f))"

text \<open>
  The state of the upload form, and the handler of a chosen file: the state when the
  handler has run to its end, and what it did outside. \<open>maxSizeMB\<close> is a whole number
  of megabytes, as in every use of the form.
\<close>

record FileUpload =
  uploading :: bool
  progress :: nat
  error :: jsstring
  success :: bool

definition handleFileSelect ::
  "supabase \<Rightarrow> nat \<Rightarrow> bucket \<Rightarrow> nat \<Rightarrow> File option \<Rightarrow> FileUpload \<Rightarrow> FileUpload \<times> event list" where
  "handleFileSelect sb timestamp bkt maxSizeMB chosen st =
     (case chosen of
        None \<Rightarrow> (st, [])
      | Some file \<Rightarrow>
          let maxSizeBytes = maxSizeMB * 1024 * 1024
          in if file_size file > maxSizeBytes
             then (st\<lparr>error := js ''File size must be less than '' @ number_to_string maxSizeMB
                                 @ js ''MB''\<rparr>, [])
             else
               (case uploadFileToSupabase sb timestamp file bkt True of
                  (Inr fileUrl, evs) \<Rightarrow>
                    (\<lparr>uploading = False, progress = 0, error = [], success = True\<rparr>,
                     evs @ [UploadComplete fileUrl])
                | (Inl err, evs) \<Rightarrow>
                    (\<lparr>uploading = False, progress = 0, error = message_of err, success = False\<rparr>,
                     evs)))"

text \<open>
  The state of the gallery. \<open>handleDelete\<close> asks the user first; \<open>confirmed\<close> is the
  answer.
\<close>

datatype media_type = Image | Video

record MediaManager =
  images :: "jsstring list"
  videos :: "jsstring list"
  loading :: bool
  deleting :: "jsstring option"
  error :: jsstring
  playingVideo :: "jsstring option"

definition handleDelete ::
  "supabase \<Rightarrow> bool \<Rightarrow> jsstring \<Rightarrow> media_type \<Rightarrow> MediaManager \<Rightarrow> MediaManager \<times> event list" where
  "handleDelete sb confirmed fileUrl ty st =
     (if \<not> confirmed then (st, [])
      else
        case deleteFileFromSupabase sb fileUrl (if ty = Image then ProductImages else ProductVideos) of
          (Inr _, evs) \<Rightarrow>
            ((if ty = Image
              then st\<lparr>images := filter (\<lambda>u. u \<noteq> fileUrl) (images st)\<rparr>
              else st\<lparr>videos := filter (\<lambda>u. u \<noteq> fileUrl) (videos st)\<rparr>)
               \<lparr>error := [], deleting := None\<rparr>, evs)
        | (Inl err, evs) \<Rightarrow> (st\<lparr>error := message_of err, deleting := None\<rparr>, evs))"

definition getFileName :: "jsstring \<Rightarrow> jsstring option" where
  "getFileName u =
     (let parts = js_split (js ''/'') u;
          fileName = at_index parts (length parts - 1)
      in case decodeURIComponent (tmpl fileName) of
           None \<Rightarrow> None
         | Some decoded \<Rightarrow> Some (js_join (js ''-'') (drop 1 (js_split (js ''-'') decoded))))"

section \<open>Example values\<close>

text \<open>
  A file, a configured environment, and a storage service and an object-store client
  that accept every request; a gallery of two images and one video.
\<close>

abbreviation exampleFile :: File where
  "exampleFile \<equiv> \<lparr>file_name = js ''my file.png'', file_size = 2048, file_type = js ''image/png''\<rparr>"

abbreviation exampleEnv :: env where
  "exampleEnv \<equiv>
     \<lparr>VITE_AWS_REGION = Some (js ''us-east-1''), VITE_AWS_ACCESS_KEY_ID = Some (js ''id''),
      VITE_AWS_SECRET_ACCESS_KEY = Some (js ''secret''), VITE_AWS_S3_BUCKET = Some (js ''media''),
      VITE_CLOUDFRONT_DOMAIN = Some (js ''cdn.example.com'')\<rparr>"

abbreviation acceptingClient :: s3Client where
  "acceptingClient \<equiv>
     \<lparr>array_buffer = (\<lambda>f. None), put_response = (\<lambda>b k. None), delete_response = (\<lambda>b k. None)\<rparr>"

abbreviation acceptingService :: supabase where
  "acceptingService \<equiv>
     \<lparr>upload_response = (\<lambda>b p. Inr p), remove_response = (\<lambda>b ps. None),
      public_url = (\<lambda>b p. js ''https://x.supabase.co/storage/v1/object/public/media/'' @ p)\<rparr>"

abbreviation exampleGallery :: MediaManager where
  "exampleGallery \<equiv>
     \<lparr>images = [js ''https://x/1-a.png'', js ''https://x/2-b.png''], videos = [js ''https://x/3-c.mp4''],
      loading = False, deleting = None, error = [], playingVideo = None\<rparr>"

section \<open>Properties of the matcher\<close>

text \<open>The equation of the star, unfolded once.\<close>

lemma rmatch_StarD:
  "(s', c') \<in> set (rmatch (Star r) s c) \<Longrightarrow>
     (s', c') = (s, c) \<or>
     (\<exists>s1 c1. (s1, c1) \<in> set (rmatch r s c) \<and> length s1 < length s
        \<and> (s', c') \<in> set (rmatch (Star r) s1 c1))"
  by (subst (asm) rmatch.simps(5)) (auto split: if_splits)

text \<open>What is left over is a suffix of the input.\<close>

lemma rmatch_suffix:
  "(s', c') \<in> set (rmatch r s c) \<Longrightarrow> \<exists>w. s = w @ s'"
proof (induction r s c arbitrary: s' c' rule: rmatch.induct)
  case (1 p s c)
  then show ?case by (auto split: list.splits if_splits)
next
  case (2 s c)
  then show ?case by simp
next
  case (3 r1 r2 s c)
  from "3.prems" obtain s1 c1 where a: "(s1, c1) \<in> set (rmatch r1 s c)"
    and b: "(s', c') \<in> set (rmatch r2 s1 c1)" by auto
  from "3.IH"(1)[OF a] obtain w1 where "s = w1 @ s1" by blast
  moreover from "3.IH"(2)[OF a refl b] obtain w2 where "s1 = w2 @ s'" by blast
  ultimately show ?case by simp
next
  case (4 r1 r2 s c)
  then show ?case by auto
next
  case (5 r s c)
  show ?case
  proof (cases "(s', c') = (s, c)")
    case True
    then show ?thesis by simp
  next
    case False
    with rmatch_StarD[OF "5.prems"(1)] obtain s1 c1 where a: "(s1, c1) \<in> set (rmatch r s c)"
      and l: "length s1 < length s"
      and b: "(s', c') \<in> set (rmatch (Star r) s1 c1)" by blast
    from "5.IH"(1)[OF a] obtain w1 where "s = w1 @ s1" by blast
    moreover from "5.IH"(2)[OF a refl l b] obtain w2 where "s1 = w2 @ s'" by blast
    ultimately show ?thesis by simp
  qed
next
  case (6 i r s c)
  then show ?case by auto
next
  case (7 s c)
  then show ?case by (auto split: if_splits)
qed

text \<open>A capture, once set, stays set.\<close>

lemma rmatch_caps_mono:
  "(s', c') \<in> set (rmatch r s c) \<Longrightarrow> c i \<noteq> None \<Longrightarrow> c' i \<noteq> None"
proof (induction r s c arbitrary: s' c' rule: rmatch.induct)
  case (1 p s c)
  then show ?case by (auto split: list.splits if_splits)
next
  case (2 s c)
  then show ?case by simp
next
  case (3 r1 r2 s c)
  from "3.prems" obtain s1 c1 where a: "(s1, c1) \<in> set (rmatch r1 s c)"
    and b: "(s', c') \<in> set (rmatch r2 s1 c1)" by auto
  from "3.IH"(1)[OF a "3.prems"(2)] have "c1 i \<noteq> None" .
  from "3.IH"(2)[OF a refl b this] show ?case .
next
  case (4 r1 r2 s c)
  then show ?case by auto
next
  case (5 r s c)
  show ?case
  proof (cases "(s', c') = (s, c)")
    case True
    with "5.prems" show ?thesis by simp
  next
    case False
    with rmatch_StarD[OF "5.prems"(1)] obtain s1 c1 where a: "(s1, c1) \<in> set (rmatch r s c)"
      and l: "length s1 < length s"
      and b: "(s', c') \<in> set (rmatch (Star r) s1 c1)" by blast
    from "5.IH"(1)[OF a "5.prems"(2)] have "c1 i \<noteq> None" .
    from "5.IH"(2)[OF a refl l b this] show ?thesis .
  qed
next
  case (6 j r s c)
  then show ?case by (auto split: if_splits)
next
  case (7 s c)
  then show ?case by (auto split: if_splits)
qed

lemma rmatch_rep_Cls:
  "(s', c') \<in> set (rmatch (rep n (Cls p)) s c) \<Longrightarrow>
     c' = c \<and> (\<exists>w. s = w @ s' \<and> length w = n \<and> (\<forall>x\<in>set w. p x))"
proof (induction n arbitrary: s)
  case 0
  then show ?case by simp
next
  case (Suc n)
  from Suc.prems obtain x xs where s: "s = x # xs" and px: "p x"
    and m: "(s', c') \<in> set (rmatch (rep n (Cls p)) xs c)"
    by (auto split: list.splits if_splits)
  from Suc.IH[OF m] obtain w where "c' = c" "xs = w @ s'" "length w = n" "\<forall>x\<in>set w. p x"
    by blast
  with s px have "s = (x # w) @ s' \<and> length (x # w) = Suc n \<and> (\<forall>y\<in>set (x # w). p y)" by simp
  with \<open>c' = c\<close> show ?case by blast
qed

lemma re_exec_Some:
  "re_exec r s = Some (m, c) \<Longrightarrow> \<exists>t s' p. s = p @ t \<and> (s', c) \<in> set (rmatch r t Map.empty)"
proof (induction s)
  case Nil
  then show ?case by (auto split: list.splits)
next
  case (Cons x xs)
  show ?case
  proof (cases "rmatch r (x # xs) Map.empty")
    case Nil
    with Cons.prems have "re_exec r xs = Some (m, c)" by simp
    from Cons.IH[OF this] obtain t s' p where "xs = p @ t" "(s', c) \<in> set (rmatch r t Map.empty)"
      by blast
    then have "x # xs = (x # p) @ t" by simp
    with \<open>(s', c) \<in> set (rmatch r t Map.empty)\<close> show ?thesis by blast
  next
    case (Cons a list)
    with Cons.prems have "(fst a, c) \<in> set (rmatch r (x # xs) Map.empty)"
      by (cases a) auto
    then show ?thesis by (metis append_Nil)
  qed
qed

lemma re_exec_complete:
  "rmatch r t Map.empty \<noteq> [] \<Longrightarrow> re_exec r (p @ t) \<noteq> None"
proof (induction p)
  case Nil
  then show ?case by (cases t) (auto split: list.splits)
next
  case (Cons x xs)
  then show ?case by (auto split: list.splits)
qed

lemma rmatch_SeqD:
  "(s', c') \<in> set (rmatch (Seq a b) s c) \<Longrightarrow>
     \<exists>s1 c1. (s1, c1) \<in> set (rmatch a s c) \<and> (s', c') \<in> set (rmatch b s1 c1)"
  by auto

lemma rmatch_CapD:
  "(s', c') \<in> set (rmatch (Cap i r) s c) \<Longrightarrow> c' i = Some (take (length s - length s') s)
     \<and> (\<exists>c2. (s', c2) \<in> set (rmatch r s c))"
  by auto

lemma youtube_capture:
  assumes "re_exec youtubeRegex s = Some (m, c)"
  shows "\<exists>w. c 1 = Some w \<and> length w = 11"
proof -
  from re_exec_Some[OF assms] obtain t s' where "(s', c) \<in> set (rmatch youtubeRegex t Map.empty)"
    by blast
  then have "(s', c) \<in> set (rmatch (Seq youtubeHead (Cap 1 (rep 11 (Cls youtubeIdChar)))) t Map.empty)"
    by (simp only: youtubeRegex_def)
  from rmatch_SeqD[OF this] obtain s1 c1 where
    b: "(s', c) \<in> set (rmatch (Cap 1 (rep 11 (Cls youtubeIdChar))) s1 c1)"
    by blast
  from rmatch_CapD[OF b] obtain c2 where c: "c 1 = Some (take (length s1 - length s') s1)"
    and d: "(s', c2) \<in> set (rmatch (rep 11 (Cls youtubeIdChar)) s1 c1)" by blast
  from rmatch_rep_Cls[OF d] obtain w where "s1 = w @ s'" "length w = 11" by blast
  with c show ?thesis by simp
qed

lemma vimeo_capture:
  assumes "re_exec vimeoRegex s = Some (m, c)"
  shows "c 1 \<noteq> None"
proof -
  from re_exec_Some[OF assms] obtain t s' where "(s', c) \<in> set (rmatch vimeoRegex t Map.empty)"
    by blast
  then have "(s', c) \<in> set (rmatch (Seq vimeoHead (Seq (Cap 1 (Plus (Cls is_digit)))
                 (Alt Eps (lit (js ''/?''))))) t Map.empty)"
    by (simp only: vimeoRegex_def)
  from rmatch_SeqD[OF this] obtain s1 c1 where
    "(s', c) \<in> set (rmatch (Seq (Cap 1 (Plus (Cls is_digit))) (Alt Eps (lit (js ''/?'')))) s1 c1)"
    by blast
  from rmatch_SeqD[OF this] obtain s3 c3 where
    a: "(s3, c3) \<in> set (rmatch (Cap 1 (Plus (Cls is_digit))) s1 c1)"
    and b: "(s', c) \<in> set (rmatch (Alt Eps (lit (js ''/?''))) s3 c3)"
    by blast
  from rmatch_CapD[OF a] have "c3 1 \<noteq> None" by simp
  from rmatch_caps_mono[OF b this] show ?thesis .
qed


subsection \<open>Trimming, literals and the search\<close>

lemma space_not_lower: "is_space c \<Longrightarrow> \<not> is_lower c"
  unfolding is_space_def is_lower_def is_line_terminator_def
  by (auto simp: word_le_nat_alt)

lemma canon_space: "is_space c \<Longrightarrow> canon c = c"
  by (simp add: canon_def space_not_lower)

lemma canon_dot: "canon c = 0x2E \<longleftrightarrow> c = 0x2E"
  unfolding canon_def is_lower_def
  by (auto simp: word_le_nat_alt)

lemma dropWhile_all: "\<forall>x\<in>set xs. P x \<Longrightarrow> dropWhile P xs = []"
  by (induction xs) auto

lemma trim_all_space: "\<forall>c\<in>set u. is_space c \<Longrightarrow> trim u = []"
  by (simp add: trim_def dropWhile_all)

lemma dropWhile_append_stop: "\<not> P a \<Longrightarrow> dropWhile P (p @ a # m) = dropWhile P p @ a # m"
  by (induction p) auto

lemma trim_mid:
  assumes "\<not> is_space a"
  shows "trim (p @ a # m) = dropWhile is_space p @ a # rev (dropWhile is_space (rev m))"
proof -
  have "dropWhile is_space (rev (dropWhile is_space p @ a # m))
        = dropWhile is_space (rev m) @ a # rev (dropWhile is_space p)"
    using dropWhile_append_stop[of is_space a "rev m" "rev (dropWhile is_space p)"] assms by simp
  then show ?thesis
    using assms by (simp add: trim_def dropWhile_append_stop)
qed

lemma rmatch_lit:
  "(s', c') \<in> set (rmatch (lit w) s c) \<Longrightarrow> s = w @ s' \<and> c' = c"
  by (induction w arbitrary: s) (auto split: list.splits if_splits)

lemma rmatch_liti:
  "map canon w' = map canon w \<Longrightarrow> rmatch (liti w) (w' @ s) c = [(s, c)]"
  by (induction w arbitrary: w') auto

lemma rmatch_Star_Cls_all:
  "\<forall>x\<in>set s. p x \<Longrightarrow> ([], c) \<in> set (rmatch (Star (Cls p)) s c)"
proof (induction s)
  case Nil
  show ?case by (subst rmatch.simps(5)) simp
next
  case (Cons x xs)
  then show ?case by (subst rmatch.simps(5)) simp
qed

lemma rmatch_Seq_nonempty:
  "(s1, c1) \<in> set (rmatch a s c) \<Longrightarrow> rmatch b s1 c1 \<noteq> [] \<Longrightarrow> rmatch (Seq a b) s c \<noteq> []"
  by force

lemma re_exec_None_iff:
  "re_exec r s = None \<longleftrightarrow> (\<forall>p t. s = p @ t \<longrightarrow> rmatch r t Map.empty = [])"
proof
  assume n: "re_exec r s = None"
  show "\<forall>p t. s = p @ t \<longrightarrow> rmatch r t Map.empty = []"
  proof (intro allI impI)
    fix p t assume "s = p @ t"
    with n re_exec_complete[of r t p] show "rmatch r t Map.empty = []" by auto
  qed
next
  assume a: "\<forall>p t. s = p @ t \<longrightarrow> rmatch r t Map.empty = []"
  show "re_exec r s = None"
  proof (rule ccontr)
    assume "re_exec r s \<noteq> None"
    then obtain m c where "re_exec r s = Some (m, c)" by auto
    from re_exec_Some[OF this] a show False by fastforce
  qed
qed

section \<open>Properties of the classifier\<close>

subsection \<open>Evaluations and the shapes of a result\<close>

lemma parse_youtu_be:
  "parseVideoUrl (js ''https://youtu.be/dQw4w9WgXcQ'') =
     \<lparr>type = YouTube, url = js ''https://youtu.be/dQw4w9WgXcQ'',
      embedUrl = Some (js ''https://www.youtube.com/embed/dQw4w9WgXcQ?rel=0&modestbranding=1''),
      videoId = Some (js ''dQw4w9WgXcQ'')\<rparr>"
  by code_simp

lemma parse_vimeo_com:
  "parseVideoUrl (js ''https://vimeo.com/76979871'') =
     \<lparr>type = Vimeo, url = js ''https://vimeo.com/76979871'',
      embedUrl = Some (js ''https://player.vimeo.com/video/76979871''),
      videoId = Some (js ''76979871'')\<rparr>"
  by code_simp

lemma parse_clip_mp4:
  "parseVideoUrl (js ''https://cdn.example.com/clip.mp4?x=1'') =
     \<lparr>type = Direct, url = js ''https://cdn.example.com/clip.mp4?x=1'',
      embedUrl = None, videoId = None\<rparr>"
  by code_simp

text \<open>
  The four shapes of a result: the branch taken fixes which optional fields are there.
\<close>

lemma parseVideoUrl_cases:
  "(type (parseVideoUrl u) = YouTube
      \<and> (\<exists>v. videoId (parseVideoUrl u) = Some v \<and> length v = 11
            \<and> embedUrl (parseVideoUrl u) =
                Some (js ''https://www.youtube.com/embed/'' @ v @ js ''?rel=0&modestbranding=1'')))
   \<or> (type (parseVideoUrl u) = Vimeo
      \<and> (\<exists>v. videoId (parseVideoUrl u) = Some v
            \<and> embedUrl (parseVideoUrl u) = Some (js ''https://player.vimeo.com/video/'' @ v)))
   \<or> (type (parseVideoUrl u) = Direct
      \<and> videoId (parseVideoUrl u) = None \<and> embedUrl (parseVideoUrl u) = None)
   \<or> (type (parseVideoUrl u) = Unknown
      \<and> videoId (parseVideoUrl u) = None \<and> embedUrl (parseVideoUrl u) = None)"
proof (cases "u = []")
  case True
  then show ?thesis by (simp add: parseVideoUrl_def)
next
  case nonempty: False
  show ?thesis
  proof (cases "re_exec youtubeRegex (trim u)")
    case (Some a)
    obtain m c where a: "a = (m, c)" by (cases a)
    from youtube_capture Some a obtain w where "c 1 = Some w" "length w = 11" by blast
    with nonempty Some a show ?thesis by (simp add: parseVideoUrl_def tmpl_def Let_def)
  next
    case no_youtube: None
    show ?thesis
    proof (cases "re_exec vimeoRegex (trim u)")
      case (Some a)
      obtain m c where a: "a = (m, c)" by (cases a)
      from vimeo_capture Some a obtain w where "c 1 = Some w" by blast
      with nonempty no_youtube Some a show ?thesis by (simp add: parseVideoUrl_def tmpl_def Let_def)
    next
      case None
      with nonempty no_youtube show ?thesis by (simp add: parseVideoUrl_def Let_def)
    qed
  qed
qed

subsection \<open>Every pattern needs a dot\<close>

lemma canon_2E: "canon 0x2E = 0x2E"
  by (simp add: canon_def is_lower_def)

lemma youtubeHead_dot:
  assumes "(s', c') \<in> set (rmatch youtubeHead t c)"
  shows "0x2E \<in> set t"
proof -
  obtain r where r: "youtubeHead = Alt (Seq (lit (js ''youtube.com/'')) r) (lit (js ''youtu.be/''))"
    by (simp add: youtubeHead_def)
  from assms[unfolded r] have
    "(s', c') \<in> set (rmatch (Seq (lit (js ''youtube.com/'')) r) t c)
     \<or> (s', c') \<in> set (rmatch (lit (js ''youtu.be/'')) t c)"
    by (simp only: rmatch.simps(4) set_append Un_iff)
  then show ?thesis
  proof
    assume "(s', c') \<in> set (rmatch (Seq (lit (js ''youtube.com/'')) r) t c)"
    from rmatch_SeqD[OF this] obtain s1 c1 where
      "(s1, c1) \<in> set (rmatch (lit (js ''youtube.com/'')) t c)" by blast
    from rmatch_lit[OF this] have "t = js ''youtube.com/'' @ s1" by simp
    then show ?thesis by (simp add: js_def)
  next
    assume "(s', c') \<in> set (rmatch (lit (js ''youtu.be/'')) t c)"
    from rmatch_lit[OF this] have "t = js ''youtu.be/'' @ s'" by simp
    then show ?thesis by (simp add: js_def)
  qed
qed

lemma youtubeRegex_dot:
  assumes "rmatch youtubeRegex t c \<noteq> []"
  shows "0x2E \<in> set t"
proof -
  from assms obtain s' c' where "(s', c') \<in> set (rmatch youtubeRegex t c)"
    by (cases "rmatch youtubeRegex t c") auto
  then have "(s', c') \<in> set (rmatch (Seq youtubeHead (Cap 1 (rep 11 (Cls youtubeIdChar)))) t c)"
    by (simp only: youtubeRegex_def)
  from rmatch_SeqD[OF this] youtubeHead_dot show ?thesis by blast
qed

lemma vimeoRegex_dot:
  assumes "rmatch vimeoRegex t c \<noteq> []"
  shows "0x2E \<in> set t"
proof -
  from assms obtain s' c' where "(s', c') \<in> set (rmatch vimeoRegex t c)"
    by (cases "rmatch vimeoRegex t c") auto
  then obtain r where "(s', c') \<in> set (rmatch (Seq vimeoHead r) t c)"
    by (simp only: vimeoRegex_def)
  from rmatch_SeqD[OF this] obtain s1 c1 where "(s1, c1) \<in> set (rmatch vimeoHead t c)"
    by blast
  then obtain r' where "(s1, c1) \<in> set (rmatch (Seq (lit (js ''vimeo.com/'')) r') t c)"
    by (simp only: vimeoHead_def)
  from rmatch_SeqD[OF this] obtain s2 c2 where
    "(s2, c2) \<in> set (rmatch (lit (js ''vimeo.com/'')) t c)" by blast
  from rmatch_lit[OF this] have "t = js ''vimeo.com/'' @ s2" by simp
  then show ?thesis by (simp add: js_def)
qed

lemma videoExtensions_dot:
  assumes "rmatch videoExtensions t c \<noteq> []"
  shows "0x2E \<in> set t"
proof -
  from assms obtain s' c' where "(s', c') \<in> set (rmatch videoExtensions t c)"
    by (cases "rmatch videoExtensions t c") auto
  then obtain r where "(s', c') \<in> set (rmatch (Seq (liti (js ''.'')) r) t c)"
    by (simp only: videoExtensions_def)
  from rmatch_SeqD[OF this] obtain s1 c1 where
    "(s1, c1) \<in> set (rmatch (liti (js ''.'')) t c)" by blast
  then show ?thesis
    by (cases t) (auto simp: js_def canon_2E canon_dot split: if_splits)
qed

lemma no_dot_no_match:
  assumes "0x2E \<notin> set s"
  shows "re_exec youtubeRegex s = None" "re_exec vimeoRegex s = None"
    "re_exec videoExtensions s = None"
proof -
  have sub: "\<And>p t. s = p @ t \<Longrightarrow> 0x2E \<notin> set t" using assms by auto
  show "re_exec youtubeRegex s = None"
    unfolding re_exec_None_iff using sub youtubeRegex_dot by blast
  show "re_exec vimeoRegex s = None"
    unfolding re_exec_None_iff using sub vimeoRegex_dot by blast
  show "re_exec videoExtensions s = None"
    unfolding re_exec_None_iff using sub videoExtensions_dot by blast
qed

lemma set_trim: "set (trim s) \<subseteq> set s"
proof -
  have "set (trim s) \<subseteq> set (dropWhile is_space s)"
    unfolding trim_def using set_dropWhileD[of _ is_space "rev (dropWhile is_space s)"] by auto
  also have "\<dots> \<subseteq> set s" using set_dropWhileD[of _ is_space s] by auto
  finally show ?thesis .
qed

lemma parse_unmatched:
  assumes "re_exec youtubeRegex (trim u) = None" "re_exec vimeoRegex (trim u) = None"
    "re_exec videoExtensions (trim u) = None"
  shows "parseVideoUrl u = \<lparr>type = Unknown, url = trim u, embedUrl = None, videoId = None\<rparr>"
  using assms by (cases "u = []") (simp_all add: parseVideoUrl_def Let_def re_test_def trim_def)


subsection \<open>Hosted links, shape of the result, thumbnails, unrecognized input\<close>

text \<open>
  C6. The two hosted links of the specification: the short YouTube link gives the
  YouTube variant with the identifier \<open>dQw4w9WgXcQ\<close> and the embed address built from
  it, and the Vimeo link gives the Vimeo variant with the identifier \<open>76979871\<close> and
  its player address.
\<close>

theorem classify_hosted_examples:
  "parseVideoUrl (js ''https://youtu.be/dQw4w9WgXcQ'') =
     \<lparr>type = YouTube, url = js ''https://youtu.be/dQw4w9WgXcQ'',
      embedUrl = Some (js ''https://www.youtube.com/embed/dQw4w9WgXcQ?rel=0&modestbranding=1''),
      videoId = Some (js ''dQw4w9WgXcQ'')\<rparr>
   \<and> parseVideoUrl (js ''https://vimeo.com/76979871'') =
     \<lparr>type = Vimeo, url = js ''https://vimeo.com/76979871'',
      embedUrl = Some (js ''https://player.vimeo.com/video/76979871''),
      videoId = Some (js ''76979871'')\<rparr>"
  using parse_youtu_be parse_vimeo_com by (rule conjI)

text \<open>
  C7. For every input, the result carries an embed address exactly when its type is
  YouTube or Vimeo, and a video identifier exactly when its type is YouTube or Vimeo
  (the identifier group is mandatory in both patterns, so extraction succeeds whenever
  the pattern matches); the direct-file and unrecognized variants carry neither.
\<close>

theorem videoinfo_shape:
  "(embedUrl (parseVideoUrl u) \<noteq> None \<longleftrightarrow> type (parseVideoUrl u) \<in> {YouTube, Vimeo})
   \<and> (videoId (parseVideoUrl u) \<noteq> None \<longleftrightarrow> type (parseVideoUrl u) \<in> {YouTube, Vimeo})
   \<and> (type (parseVideoUrl u) \<in> {Direct, Unknown} \<longrightarrow>
        embedUrl (parseVideoUrl u) = None \<and> videoId (parseVideoUrl u) = None)"
  using parseVideoUrl_cases[of u] by auto

theorem videoinfo_shape_witness:
  "type (parseVideoUrl (js ''https://cdn.example.com/clip.mp4?x=1'')) \<in> {Direct, Unknown}
   \<and> embedUrl (parseVideoUrl (js ''https://cdn.example.com/clip.mp4?x=1'')) = None
   \<and> videoId (parseVideoUrl (js ''https://cdn.example.com/clip.mp4?x=1'')) = None"
proof -
  have "type (parseVideoUrl (js ''https://cdn.example.com/clip.mp4?x=1'')) \<in> {Direct, Unknown}"
    by (simp add: parse_clip_mp4)
  with videoinfo_shape[of "js ''https://cdn.example.com/clip.mp4?x=1''"] show ?thesis
    by blast
qed

text \<open>
  C10. For every input, the thumbnail of the classification is the address
  \<open>https://img.youtube.com/vi/{videoId}/maxresdefault.jpg\<close> when the classification
  is the YouTube variant (which always carries its identifier), and is absent for the
  Vimeo, direct-file and unrecognized variants.
\<close>

theorem thumbnail_rule:
  "(type (parseVideoUrl u) = YouTube
      \<and> (\<exists>v. videoId (parseVideoUrl u) = Some v
            \<and> getVideoThumbnail (parseVideoUrl u) =
                Some (js ''https://img.youtube.com/vi/'' @ v @ js ''/maxresdefault.jpg'')))
   \<or> (type (parseVideoUrl u) \<in> {Vimeo, Direct, Unknown}
      \<and> getVideoThumbnail (parseVideoUrl u) = None)"
  using parseVideoUrl_cases[of u]
  by (auto simp: getVideoThumbnail_def truthy_def tmpl_def)

theorem thumbnail_rule_witness:
  "getVideoThumbnail (parseVideoUrl (js ''https://youtu.be/dQw4w9WgXcQ'')) =
     Some (js ''https://img.youtube.com/vi/dQw4w9WgXcQ/maxresdefault.jpg'')
   \<and> getVideoThumbnail (parseVideoUrl (js ''https://vimeo.com/76979871'')) = None"
proof -
  have "getVideoThumbnail (parseVideoUrl (js ''https://youtu.be/dQw4w9WgXcQ'')) =
     Some (js ''https://img.youtube.com/vi/'' @ js ''dQw4w9WgXcQ'' @ js ''/maxresdefault.jpg'')"
    using thumbnail_rule[of "js ''https://youtu.be/dQw4w9WgXcQ''"]
    by (simp add: parse_youtu_be)
  moreover have "getVideoThumbnail (parseVideoUrl (js ''https://vimeo.com/76979871'')) = None"
    using thumbnail_rule[of "js ''https://vimeo.com/76979871''"]
    by (simp add: parse_vimeo_com)
  ultimately show ?thesis by (simp add: js_def)
qed

text \<open>
  C8. The classifier is a total function with no error result. For the empty string
  and for every string made of white space only it returns the unrecognized variant
  with the empty url; for every string whose trimmed form matches none of the three
  patterns it returns the unrecognized variant with the trimmed input as url. A string
  without a dot is such a string: each pattern needs a literal dot.
\<close>

theorem classify_total:
  "parseVideoUrl [] = \<lparr>type = Unknown, url = [], embedUrl = None, videoId = None\<rparr>
   \<and> ((\<forall>c\<in>set u. is_space c) \<longrightarrow>
        parseVideoUrl u = \<lparr>type = Unknown, url = [], embedUrl = None, videoId = None\<rparr>)
   \<and> (re_exec youtubeRegex (trim u) = None \<and> re_exec vimeoRegex (trim u) = None
        \<and> \<not> re_test videoExtensions (trim u) \<longrightarrow>
        parseVideoUrl u = \<lparr>type = Unknown, url = trim u, embedUrl = None, videoId = None\<rparr>)
   \<and> (0x2E \<notin> set u \<longrightarrow>
        parseVideoUrl u = \<lparr>type = Unknown, url = trim u, embedUrl = None, videoId = None\<rparr>)"
proof (intro conjI impI)
  show "parseVideoUrl [] = \<lparr>type = Unknown, url = [], embedUrl = None, videoId = None\<rparr>"
    by (simp add: parseVideoUrl_def)
next
  assume ws: "\<forall>c\<in>set u. is_space c"
  then have t: "trim u = []" by (rule trim_all_space)
  have "0x2E \<notin> set (trim u)" by (simp add: t)
  from parse_unmatched[OF no_dot_no_match[OF this]] t
  show "parseVideoUrl u = \<lparr>type = Unknown, url = [], embedUrl = None, videoId = None\<rparr>"
    by simp
next
  assume a: "re_exec youtubeRegex (trim u) = None \<and> re_exec vimeoRegex (trim u) = None
        \<and> \<not> re_test videoExtensions (trim u)"
  then have "re_exec videoExtensions (trim u) = None" unfolding re_test_def by blast
  with a parse_unmatched
  show "parseVideoUrl u = \<lparr>type = Unknown, url = trim u, embedUrl = None, videoId = None\<rparr>"
    by blast
next
  assume "0x2E \<notin> set u"
  with set_trim[of u] have "0x2E \<notin> set (trim u)" by blast
  from parse_unmatched[OF no_dot_no_match[OF this]]
  show "parseVideoUrl u = \<lparr>type = Unknown, url = trim u, embedUrl = None, videoId = None\<rparr>" .
qed

lemma trim_hello: "trim (js '' not a url '') = js ''not a url''"
  by code_simp

lemma notes_txt_unmatched:
  "trim (js ''notes.txt'') = js ''notes.txt''
   \<and> re_exec youtubeRegex (js ''notes.txt'') = None
   \<and> re_exec vimeoRegex (js ''notes.txt'') = None
   \<and> \<not> re_test videoExtensions (js ''notes.txt'')"
  by code_simp

theorem classify_total_witness:
  "parseVideoUrl [0x20, 0x09, 0x0A, 0x3000] =
     \<lparr>type = Unknown, url = [], embedUrl = None, videoId = None\<rparr>
   \<and> parseVideoUrl (js ''notes.txt'') =
     \<lparr>type = Unknown, url = js ''notes.txt'', embedUrl = None, videoId = None\<rparr>
   \<and> parseVideoUrl (js '' not a url '') =
     \<lparr>type = Unknown, url = js ''not a url'', embedUrl = None, videoId = None\<rparr>"
proof -
  have a: "\<forall>c\<in>set [0x20, 0x09, 0x0A, 0x3000]. is_space c"
    by (simp add: is_space_def is_line_terminator_def)
  have b: "0x2E \<notin> set (js '' not a url '')" by (simp add: js_def)
  have c: "re_exec youtubeRegex (trim (js ''notes.txt'')) = None
      \<and> re_exec vimeoRegex (trim (js ''notes.txt'')) = None
      \<and> \<not> re_test videoExtensions (trim (js ''notes.txt''))"
    using notes_txt_unmatched by simp
  from classify_total[of "[0x20, 0x09, 0x0A, 0x3000]"] a
  have "parseVideoUrl [0x20, 0x09, 0x0A, 0x3000] =
     \<lparr>type = Unknown, url = [], embedUrl = None, videoId = None\<rparr>" by blast
  moreover from classify_total[of "js ''notes.txt''"]
  have "re_exec youtubeRegex (trim (js ''notes.txt'')) = None
      \<and> re_exec vimeoRegex (trim (js ''notes.txt'')) = None
      \<and> \<not> re_test videoExtensions (trim (js ''notes.txt'')) \<longrightarrow>
    parseVideoUrl (js ''notes.txt'') =
     \<lparr>type = Unknown, url = trim (js ''notes.txt''), embedUrl = None, videoId = None\<rparr>"
    by blast
  with c have "parseVideoUrl (js ''notes.txt'') =
     \<lparr>type = Unknown, url = trim (js ''notes.txt''), embedUrl = None, videoId = None\<rparr>"
    by blast
  moreover from classify_total[of "js '' not a url ''"] b
  have "parseVideoUrl (js '' not a url '') =
     \<lparr>type = Unknown, url = trim (js '' not a url ''), embedUrl = None, videoId = None\<rparr>"
    by blast
  ultimately show ?thesis using notes_txt_unmatched by (simp add: trim_hello)
qed

subsection \<open>Direct files\<close>

lemma ext_variant_chars:
  assumes "map canon e = map canon x" "x \<in> {js ''mp4'', js ''webm'', js ''ogg'', js ''mov''}"
  shows "e \<noteq> [] \<and> (\<forall>c\<in>set e. \<not> is_space c)"
proof -
  have ne: "e \<noteq> []" using assms by (auto simp: js_def)
  have up: "set (map canon x) \<subseteq> {0x4D, 0x50, 0x34, 0x57, 0x45, 0x42, 0x4F, 0x47, 0x56}"
    using assms(2) by (auto simp: js_def canon_def is_lower_def)
  have "\<not> is_space c" if "c \<in> set e" for c
  proof
    assume sp: "is_space c"
    from that have "canon c \<in> set (map canon e)" by simp
    with sp assms(1) up have "c \<in> {0x4D, 0x50, 0x34, 0x57, 0x45, 0x42, 0x4F, 0x47, 0x56}"
      by (auto simp: canon_space)
    with sp show False by (auto simp: is_space_def is_line_terminator_def)
  qed
  with ne show ?thesis by blast
qed

lemma dropWhile_rev_last:
  assumes "e \<noteq> []" "\<not> P (last e)"
  shows "rev (dropWhile P (rev e)) = e"
proof -
  from assms(1) obtain ys y where e: "e = ys @ [y]" by (cases e rule: rev_cases) auto
  with assms(2) show ?thesis by simp
qed

text \<open>What trimming leaves of a string that ends in an extension and a query.\<close>

lemma trim_ext:
  assumes e: "map canon e = map canon x" "x \<in> {js ''mp4'', js ''webm'', js ''ogg'', js ''mov''}"
    and q: "q = [] \<or> (\<exists>rest. q = 0x3F # rest \<and> (\<forall>c\<in>set rest. \<not> is_line_terminator c))"
  shows "\<exists>p' q'. trim (p @ 0x2E # e @ q) = p' @ 0x2E # e @ q'
            \<and> (q' = [] \<or> (\<exists>rest. q' = 0x3F # rest \<and> (\<forall>c\<in>set rest. \<not> is_line_terminator c)))"
proof -
  have d: "\<not> is_space 0x2E" by (simp add: is_space_def is_line_terminator_def)
  have qm: "\<not> is_space 0x3F" by (simp add: is_space_def is_line_terminator_def)
  from ext_variant_chars[OF e] have ne: "e \<noteq> []" and ns: "\<not> is_space (last e)" by auto
  have t: "trim (p @ 0x2E # e @ q)
        = dropWhile is_space p @ 0x2E # rev (dropWhile is_space (rev (e @ q)))"
    using trim_mid[OF d] .
  from q show ?thesis
  proof
    assume "q = []"
    with t dropWhile_rev_last[of e is_space] ne ns have
      "trim (p @ 0x2E # e @ q) = dropWhile is_space p @ 0x2E # e @ []" by simp
    then show ?thesis by blast
  next
    assume "\<exists>rest. q = 0x3F # rest \<and> (\<forall>c\<in>set rest. \<not> is_line_terminator c)"
    then obtain rest where r: "q = 0x3F # rest" "\<forall>c\<in>set rest. \<not> is_line_terminator c" by blast
    have "rev (dropWhile is_space (rev (e @ q)))
        = e @ 0x3F # rev (dropWhile is_space (rev rest))"
      using r(1) dropWhile_append_stop[of is_space "0x3F" "rev rest" "rev e"] qm by simp
    with t have "trim (p @ 0x2E # e @ q)
        = dropWhile is_space p @ 0x2E # e @ (0x3F # rev (dropWhile is_space (rev rest)))"
      by simp
    moreover have "\<forall>c\<in>set (rev (dropWhile is_space (rev rest))). \<not> is_line_terminator c"
      using r(2) set_dropWhileD[of _ is_space "rev rest"] by auto
    ultimately show ?thesis by blast
  qed
qed

lemma ext_group_match:
  assumes "map canon e = map canon x" "x \<in> {js ''mp4'', js ''webm'', js ''ogg'', js ''mov''}"
  shows "(s, c) \<in> set (rmatch (Alt (liti (js ''mp4'')) (Alt (liti (js ''webm''))
                (Alt (liti (js ''ogg'')) (liti (js ''mov''))))) (e @ s) c)"
  using assms rmatch_liti[of e x s c] by (auto simp only: rmatch.simps(4) set_append Un_iff insert_iff empty_iff list.set)

lemma query_tail_match:
  assumes "q = [] \<or> (\<exists>rest. q = 0x3F # rest \<and> (\<forall>c\<in>set rest. \<not> is_line_terminator c))"
  shows "rmatch (Seq (Opt (Cap 2 (Seq (liti (js ''?'')) (Star (Cls dot))))) Eoi) q c \<noteq> []"
  using assms
proof
  assume "q = []"
  then have "([], c) \<in> set (rmatch (Opt (Cap 2 (Seq (liti (js ''?'')) (Star (Cls dot))))) q c)"
    by (simp add: Opt_def)
  then show ?thesis by (rule rmatch_Seq_nonempty) simp
next
  assume "\<exists>rest. q = 0x3F # rest \<and> (\<forall>c\<in>set rest. \<not> is_line_terminator c)"
  then obtain rest where r: "q = 0x3F # rest" "\<forall>c\<in>set rest. dot c" by (auto simp: dot_def)
  have "rmatch (liti (js ''?'')) q c = [(rest, c)]"
    using rmatch_liti[of "[0x3F]" "js ''?''" rest c] r(1) by (simp add: js_def)
  moreover note rmatch_Star_Cls_all[OF r(2), of c]
  ultimately have "([], c) \<in> set (rmatch (Seq (liti (js ''?'')) (Star (Cls dot))) q c)"
    by simp
  then have "\<exists>c'. ([], c') \<in> set (rmatch (Cap 2 (Seq (liti (js ''?'')) (Star (Cls dot)))) q c)"
    by force
  then obtain c' where
    "([], c') \<in> set (rmatch (Opt (Cap 2 (Seq (liti (js ''?'')) (Star (Cls dot))))) q c)"
    by (auto simp only: Opt_def rmatch.simps(4) set_append Un_iff)
  then show ?thesis by (rule rmatch_Seq_nonempty) simp
qed

lemma videoExtensions_match:
  assumes e: "map canon e = map canon x" "x \<in> {js ''mp4'', js ''webm'', js ''ogg'', js ''mov''}"
    and q: "q = [] \<or> (\<exists>rest. q = 0x3F # rest \<and> (\<forall>c\<in>set rest. \<not> is_line_terminator c))"
  shows "rmatch videoExtensions (0x2E # e @ q) c \<noteq> []"
proof -
  have a: "(e @ q, c) \<in> set (rmatch (liti (js ''.'')) (0x2E # e @ q) c)"
    using rmatch_liti[of "[0x2E]" "js ''.''" "e @ q" c] by (simp add: js_def)
  from ext_group_match[OF e, of q c] have
    "\<exists>c'. (q, c') \<in> set (rmatch (Cap 1 (Alt (liti (js ''mp4'')) (Alt (liti (js ''webm''))
                (Alt (liti (js ''ogg'')) (liti (js ''mov'')))))) (e @ q) c)"
    by (simp only: rmatch.simps(6)) force
  then obtain c' where b: "(q, c') \<in> set (rmatch (Cap 1 (Alt (liti (js ''mp4'')) (Alt (liti (js ''webm''))
                (Alt (liti (js ''ogg'')) (liti (js ''mov'')))))) (e @ q) c)" by blast
  from rmatch_Seq_nonempty[OF b query_tail_match[OF q]]
  have r: "rmatch (Seq (Cap 1 (Alt (liti (js ''mp4'')) (Alt (liti (js ''webm''))
                (Alt (liti (js ''ogg'')) (liti (js ''mov''))))))
          (Seq (Opt (Cap 2 (Seq (liti (js ''?'')) (Star (Cls dot))))) Eoi)) (e @ q) c \<noteq> []" .
  show ?thesis unfolding videoExtensions_def by (rule rmatch_Seq_nonempty[OF a r])
qed


text \<open>
  C2 (amended). The hosted patterns are tried first. For every string that ends with
  a dot, one of the extensions mp4, webm, ogg, mov in any mix of cases and then either
  nothing or a question mark and a query without line terminators, and whose trimmed
  form matches neither the YouTube nor the Vimeo pattern, the classifier returns the
  direct-file variant with the trimmed input as url.
\<close>

theorem direct_file_unless_hosted:
  assumes "map canon e = map canon x" "x \<in> {js ''mp4'', js ''webm'', js ''ogg'', js ''mov''}"
    and "q = [] \<or> (\<exists>rest. q = 0x3F # rest \<and> (\<forall>c\<in>set rest. \<not> is_line_terminator c))"
    and "re_exec youtubeRegex (trim (p @ 0x2E # e @ q)) = None"
    and "re_exec vimeoRegex (trim (p @ 0x2E # e @ q)) = None"
  shows "parseVideoUrl (p @ 0x2E # e @ q) =
           \<lparr>type = Direct, url = trim (p @ 0x2E # e @ q), embedUrl = None, videoId = None\<rparr>"
proof -
  from trim_ext[OF assms(1,2,3), of p] obtain p' q' where
    t: "trim (p @ 0x2E # e @ q) = p' @ 0x2E # e @ q'"
    and q': "q' = [] \<or> (\<exists>rest. q' = 0x3F # rest \<and> (\<forall>c\<in>set rest. \<not> is_line_terminator c))"
    by blast
  from re_exec_complete[OF videoExtensions_match[OF assms(1,2) q'], of p'] t
  have "re_test videoExtensions (trim (p @ 0x2E # e @ q))" by (simp add: re_test_def)
  with assms(4,5) show ?thesis by (simp add: parseVideoUrl_def Let_def)
qed

lemma clip_MP4_trim:
  "trim (js ''https://cdn.example.com/clip.MP4?x=1'') = js ''https://cdn.example.com/clip.MP4?x=1''"
  by code_simp

lemma clip_MP4_not_youtube:
  "re_exec youtubeRegex (js ''https://cdn.example.com/clip.MP4?x=1'') = None"
  by code_simp

lemma clip_MP4_not_vimeo:
  "re_exec vimeoRegex (js ''https://cdn.example.com/clip.MP4?x=1'') = None"
  by code_simp

lemma parse_youtu_be_mp4:
  "type (parseVideoUrl (js ''https://youtu.be/abcdefghijk.mp4'')) = YouTube"
  by code_simp

theorem direct_file_unless_hosted_witness:
  "map canon (js ''MP4'') = map canon (js ''mp4'')
   \<and> js ''?x=1'' = 0x3F # js ''x=1''
   \<and> re_exec youtubeRegex (trim (js ''https://cdn.example.com/clip.MP4?x=1'')) = None
   \<and> re_exec vimeoRegex (trim (js ''https://cdn.example.com/clip.MP4?x=1'')) = None
   \<and> parseVideoUrl (js ''https://cdn.example.com/clip.MP4?x=1'') =
       \<lparr>type = Direct, url = js ''https://cdn.example.com/clip.MP4?x=1'',
        embedUrl = None, videoId = None\<rparr>"
proof -
  have w: "js ''https://cdn.example.com/clip'' @ 0x2E # js ''MP4'' @ js ''?x=1''
           = js ''https://cdn.example.com/clip.MP4?x=1''"
    by (simp add: js_def)
  have h1: "map canon (js ''MP4'') = map canon (js ''mp4'')"
    by (simp add: js_def canon_def is_lower_def)
  have h2: "js ''mp4'' \<in> {js ''mp4'', js ''webm'', js ''ogg'', js ''mov''}" by simp
  have h3a: "js ''?x=1'' = 0x3F # js ''x=1''" by (simp add: js_def)
  have h3b: "\<forall>c\<in>set (js ''x=1''). \<not> is_line_terminator c"
    by (simp add: js_def is_line_terminator_def)
  from h3a h3b have h3: "js ''?x=1'' = [] \<or>
      (\<exists>rest. js ''?x=1'' = 0x3F # rest \<and> (\<forall>c\<in>set rest. \<not> is_line_terminator c))"
    by blast
  have h4: "re_exec youtubeRegex (trim (js ''https://cdn.example.com/clip.MP4?x=1'')) = None"
    by (simp only: clip_MP4_trim clip_MP4_not_youtube)
  have h5: "re_exec vimeoRegex (trim (js ''https://cdn.example.com/clip.MP4?x=1'')) = None"
    by (simp only: clip_MP4_trim clip_MP4_not_vimeo)
  from direct_file_unless_hosted[OF h1 h2 h3, of "js ''https://cdn.example.com/clip''"]
    h4 h5
  have "parseVideoUrl (js ''https://cdn.example.com/clip.MP4?x=1'') =
       \<lparr>type = Direct, url = js ''https://cdn.example.com/clip.MP4?x=1'',
        embedUrl = None, videoId = None\<rparr>"
    by (simp only: w clip_MP4_trim)
  with h1 h3a h4 h5 show ?thesis by blast
qed

text \<open>
  The claim as stated fails where a hosted pattern matches first: this string ends
  with \<open>.mp4\<close> and is classified as YouTube.
\<close>

theorem direct_file_counterexample:
  "js ''https://youtu.be/abcdefghijk.mp4'' = js ''https://youtu.be/abcdefghijk'' @ js ''.mp4''
   \<and> type (parseVideoUrl (js ''https://youtu.be/abcdefghijk.mp4'')) = YouTube
   \<and> type (parseVideoUrl (js ''https://youtu.be/abcdefghijk.mp4'')) \<noteq> Direct"
  by (simp add: parse_youtu_be_mp4) (simp add: js_def)

section \<open>Properties of the storage adapters and the components\<close>

subsection \<open>Splitting and joining at one code unit\<close>

lemma split_from_nonempty: "split_from sep acc s \<noteq> []"
  by (induction sep acc s rule: split_from.induct) auto

lemma split_from_single_none:
  "d \<notin> set s \<Longrightarrow> split_from [d] acc s = [rev acc @ s]"
  by (induction s arbitrary: acc) auto

lemma split_from_single_first:
  "d \<notin> set p \<Longrightarrow> split_from [d] acc (p @ d # q) = (rev acc @ p) # split_from [d] [] q"
  by (induction p arbitrary: acc) auto

lemma last_split_from_single:
  "d \<notin> set q \<Longrightarrow> last (split_from [d] acc (p @ d # q)) = q"
proof (induction p arbitrary: acc)
  case Nil
  then show ?case by (simp add: split_from_single_none)
next
  case (Cons x p)
  then show ?case by (simp add: split_from_nonempty)
qed

lemma join_split_from_single:
  "js_join [d] (split_from [d] acc s) = rev acc @ s"
proof (induction s arbitrary: acc)
  case Nil
  then show ?case by simp
next
  case (Cons x s)
  show ?case
  proof (cases "x = d")
    case True
    obtain y ys where "split_from [d] [] s = y # ys"
      using split_from_nonempty[of "[d]" "[]" s] by (cases "split_from [d] [] s") auto
    with Cons.IH[of "[]"] True show ?thesis by simp
  next
    case False
    with Cons.IH[of "x # acc"] show ?thesis by simp
  qed
qed

lemma at_index_last: "xs \<noteq> [] \<Longrightarrow> at_index xs (length xs - 1) = Some (last xs)"
  by (simp add: at_index_def last_conv_nth)

subsection \<open>Decoding, digits and safe characters\<close>

lemma decode_no_percent: "0x25 \<notin> set s \<Longrightarrow> decodeURIComponent s = Some s"
  by (induction s) auto

lemma digit_char_is_digit: "d < 10 \<Longrightarrow> is_digit (digit_char d)"
proof -
  assume "d < 10"
  then have "d \<in> {0, 1, 2, 3, 4, 5, 6, 7, 8, 9}" by auto
  then show ?thesis by (auto simp: digit_char_def is_digit_def)
qed

lemma number_to_string_digits: "\<forall>c\<in>set (number_to_string n). is_digit c"
proof (induction n rule: number_to_string.induct)
  case (1 n)
  show ?case
  proof (cases "n < 10")
    case True
    then show ?thesis by (subst number_to_string.simps) (simp add: digit_char_is_digit)
  next
    case False
    with 1 show ?thesis
      by (subst number_to_string.simps) (simp add: digit_char_is_digit)
  qed
qed

lemma digit_not_special: "is_digit c \<Longrightarrow> c \<noteq> 0x2D \<and> c \<noteq> 0x2F \<and> c \<noteq> 0x25"
  by (auto simp: is_digit_def)

lemma sanitized_chars:
  "\<forall>c\<in>set (sanitizedFileName f). is_lower c \<or> is_upper c \<or> is_digit c \<or> c = 0x2E \<or> c = 0x2D \<or> c = 0x5F"
  by (auto simp: sanitizedFileName_def replace_class_def unsafe_char_def js_def split: if_splits)

lemma safe_not_special:
  "is_lower c \<or> is_upper c \<or> is_digit c \<or> c = 0x2E \<or> c = 0x2D \<or> c = 0x5F \<Longrightarrow> c \<noteq> 0x2F \<and> c \<noteq> 0x25"
  by (auto simp: is_lower_def is_upper_def is_digit_def)

subsection \<open>Display names\<close>

lemma stamped_chars:
  "0x2F \<notin> set (number_to_string t @ js ''-'' @ sanitizedFileName f)"
  "0x25 \<notin> set (number_to_string t @ js ''-'' @ sanitizedFileName f)"
proof -
  have d: "\<And>c. c \<in> set (number_to_string t) \<Longrightarrow> c \<noteq> 0x2F \<and> c \<noteq> 0x25"
    using number_to_string_digits[of t] digit_not_special by blast
  have s: "\<And>c. c \<in> set (sanitizedFileName f) \<Longrightarrow> c \<noteq> 0x2F \<and> c \<noteq> 0x25"
    using sanitized_chars[of f] safe_not_special by blast
  show "0x2F \<notin> set (number_to_string t @ js ''-'' @ sanitizedFileName f)"
    using d s by (auto simp: js_def)
  show "0x25 \<notin> set (number_to_string t @ js ''-'' @ sanitizedFileName f)"
    using d s by (auto simp: js_def)
qed

lemma strip_stamp:
  "js_join (js ''-'') (drop 1 (js_split (js ''-'') (number_to_string t @ js ''-'' @ s))) = s"
proof -
  have "0x2D \<notin> set (number_to_string t)"
    using number_to_string_digits[of t] digit_not_special by blast
  then have "split_from [0x2D] [] (number_to_string t @ 0x2D # s)
             = number_to_string t # split_from [0x2D] [] s"
    using split_from_single_first[of "0x2D" "number_to_string t" "[]" s] by simp
  then show ?thesis
    by (simp add: js_split_def js_def join_split_from_single[of "0x2D" "[]" s, simplified])
qed

lemma getFileName_last:
  assumes "last (split_from [0x2F] [] u) = number_to_string t @ js ''-'' @ sanitizedFileName f"
  shows "getFileName u = Some (sanitizedFileName f)"
proof -
  have "at_index (js_split (js ''/'') u) (length (js_split (js ''/'') u) - 1)
        = Some (number_to_string t @ js ''-'' @ sanitizedFileName f)"
    using at_index_last[OF split_from_nonempty, of "[0x2F]" "[]" u] assms
    by (simp add: js_split_def js_def)
  with strip_stamp[of t "sanitizedFileName f"] show ?thesis
    by (simp add: getFileName_def Let_def tmpl_def decode_no_percent[OF stamped_chars(2)])
qed

lemma getFileName_stamped:
  "getFileName (number_to_string t @ js ''-'' @ sanitizedFileName f) = Some (sanitizedFileName f)"
  using getFileName_last[of "number_to_string t @ js ''-'' @ sanitizedFileName f" t f]
    split_from_single_none[OF stamped_chars(1), of "[]" t f]
  by simp

lemma getFileName_slash_stamped:
  "getFileName (p @ js ''/'' @ number_to_string t @ js ''-'' @ sanitizedFileName f)
   = Some (sanitizedFileName f)"
proof -
  have "last (split_from [0x2F] [] (p @ 0x2F # (number_to_string t @ js ''-'' @ sanitizedFileName f)))
        = number_to_string t @ js ''-'' @ sanitizedFileName f"
    using last_split_from_single[OF stamped_chars(1)] .
  then show ?thesis
    using getFileName_last[of "p @ js ''/'' @ number_to_string t @ js ''-'' @ sanitizedFileName f" t f]
    by (simp add: js_def)
qed

lemma uploadFileToS3_url:
  assumes "fst (uploadFileToS3 e client t f folder onp) = Inr u"
  shows "\<exists>p. u = p @ js ''/'' @ key folder t f"
proof -
  have a: "js ''https://'' @ cloudFrontDomain e @ js ''/'' @ key folder t f
           = (js ''https://'' @ cloudFrontDomain e) @ js ''/'' @ key folder t f" by simp
  have b: "js ''https://'' @ bucket e @ js ''.s3.'' @ tmpl (VITE_AWS_REGION e)
             @ js ''.amazonaws.com/'' @ key folder t f
           = (js ''https://'' @ bucket e @ js ''.s3.'' @ tmpl (VITE_AWS_REGION e)
             @ js ''.amazonaws.com'') @ js ''/'' @ key folder t f" by (simp add: js_def)
  from assms have "u = js ''https://'' @ cloudFrontDomain e @ js ''/'' @ key folder t f
      \<or> u = js ''https://'' @ bucket e @ js ''.s3.'' @ tmpl (VITE_AWS_REGION e)
             @ js ''.amazonaws.com/'' @ key folder t f"
    by (auto simp: uploadFileToS3_def Let_def split: if_splits option.splits)
  with a b show ?thesis by metis
qed

lemma sanitized_map:
  "sanitizedFileName f =
     map (\<lambda>c. if is_lower c \<or> is_upper c \<or> is_digit c \<or> c = 0x2E \<or> c = 0x2D then c else 0x5F)
         (file_name f)"
proof -
  have "concat (map (\<lambda>c. if unsafe_char c then js ''_'' else [c]) xs)
        = map (\<lambda>c. if is_lower c \<or> is_upper c \<or> is_digit c \<or> c = 0x2E \<or> c = 0x2D then c else 0x5F) xs"
    for xs
    by (induction xs) (auto simp: unsafe_char_def js_def)
  then show ?thesis by (simp add: sanitizedFileName_def replace_class_def)
qed

lemma deleteFileFromSupabase_message:
  "fst (deleteFileFromSupabase sb u b) = Inl err \<Longrightarrow> message_of err \<noteq> []"
  by (auto simp: deleteFileFromSupabase_def Let_def message_of_def js_def
      split: if_splits option.splits)

subsection \<open>Separators of several code units\<close>

lemma split_from_none:
  "sep \<noteq> [] \<Longrightarrow> \<not> js_includes s sep \<Longrightarrow> split_from sep acc s = [rev acc @ s]"
  by (induction s arbitrary: acc) auto

lemma split_from_first:
  assumes "sep \<noteq> []" "\<not> js_includes (pre @ butlast sep) sep"
  shows "split_from sep acc (pre @ sep @ rest) = (rev acc @ pre) # split_from sep [] rest"
  using assms(2)
proof (induction pre arbitrary: acc)
  case Nil
  from assms(1) obtain x xs where sep: "sep = x # xs" by (cases sep) auto
  have "split_from sep acc (x # (xs @ rest)) = rev acc # split_from sep [] rest"
    by (subst split_from.simps) (simp add: sep)
  then show ?case by (simp add: sep)
next
  case (Cons y pre)
  from assms(1) obtain bs l where sep: "sep = bs @ [l]" by (cases sep rule: rev_cases) auto
  from Cons.prems have a: "take (length sep) (y # pre @ butlast sep) \<noteq> sep"
    and b: "\<not> js_includes (pre @ butlast sep) sep" by auto
  from a have "take (length sep) (y # pre @ sep @ rest) \<noteq> sep"
    by (simp add: sep)
  then have "split_from sep acc ((y # pre) @ sep @ rest) = split_from sep (y # acc) (pre @ sep @ rest)"
    by simp
  with Cons.IH[OF b, of "y # acc"] show ?case by simp
qed

lemma js_includes_prefix: "js_includes (s @ b) s"
proof (cases "s @ b")
  case Nil
  then show ?thesis by simp
next
  case (Cons x xs)
  have "take (length s) (s @ b) = s" by simp
  with Cons have "take (length s) (x # xs) = s" by simp
  with Cons show ?thesis by simp
qed

lemma js_includes_mid: "js_includes (a @ s @ b) s"
  by (induction a) (simp_all add: js_includes_prefix)

lemma split_second:
  assumes "sep \<noteq> []" "\<not> js_includes (pre @ butlast sep) sep" "\<not> js_includes k sep"
  shows "at_index (js_split sep (pre @ sep @ k)) 1 = Some k"
  using split_from_first[OF assms(1,2), of "[]" k] split_from_none[OF assms(1,3), of "[]"] assms(1)
  by (simp add: js_split_def at_index_def)

lemma split_second_none:
  assumes "sep \<noteq> []" "\<not> js_includes u sep"
  shows "at_index (js_split sep u) 1 = None"
  using split_from_none[OF assms, of "[]"] assms(1)
  by (simp add: js_split_def at_index_def)

subsection \<open>The key read off an address\<close>

lemma delete_key_cdn:
  assumes "u = pre @ cloudFrontDomain e @ js ''/'' @ k"
    and "\<not> js_includes (pre @ cloudFrontDomain e) (cloudFrontDomain e @ js ''/'')"
    and "\<not> js_includes k (cloudFrontDomain e @ js ''/'')"
  shows "delete_key e u = Some k"
proof -
  have i: "js_includes u (cloudFrontDomain e)"
    using js_includes_mid[of pre "cloudFrontDomain e" "js ''/'' @ k"] assms(1) by simp
  have b: "butlast (cloudFrontDomain e @ js ''/'') = cloudFrontDomain e" by (simp add: js_def)
  have "at_index (js_split (cloudFrontDomain e @ js ''/'') (pre @ (cloudFrontDomain e @ js ''/'') @ k)) 1
        = Some k"
    using assms(2,3) by (intro split_second) (simp_all add: js_def)
  with i assms(1) show ?thesis by (simp add: delete_key_def)
qed

lemma delete_key_native:
  assumes "\<not> js_includes u (cloudFrontDomain e)"
    and "u = pre @ js ''.amazonaws.com/'' @ k" and "k \<noteq> []"
    and "\<not> js_includes (pre @ js ''.amazonaws.com'') (js ''.amazonaws.com/'')"
    and "\<not> js_includes k (js ''.amazonaws.com/'')"
  shows "delete_key e u = Some k"
proof -
  have b: "butlast (js ''.amazonaws.com/'') = js ''.amazonaws.com''" by (simp add: js_def)
  have "at_index (js_split (js ''.amazonaws.com/'') (pre @ js ''.amazonaws.com/'' @ k)) 1 = Some k"
    using assms(4,5) by (intro split_second) (simp_all add: js_def)
  with assms(1,2,3) show ?thesis by (simp add: delete_key_def Let_def truthy_def)
qed

lemma delete_key_fallback:
  assumes "\<not> js_includes u (cloudFrontDomain e)" "\<not> js_includes u (js ''.amazonaws.com/'')"
  shows "delete_key e u = Some u"
proof -
  have "at_index (js_split (js ''.amazonaws.com/'') u) 1 = None"
    by (rule split_second_none) (simp add: js_def, rule assms(2))
  with assms(1) show ?thesis by (simp add: delete_key_def Let_def truthy_def)
qed

lemma deleteFileFromS3_trace:
  "bucket e \<noteq> [] \<Longrightarrow>
     snd (deleteFileFromS3 e client u) = [DeleteObject (bucket e) (delete_key e u)]
     \<and> (fst (deleteFileFromS3 e client u) = Inr ()
          \<longleftrightarrow> delete_response client (bucket e) (delete_key e u) = None)"
  by (auto simp: deleteFileFromS3_def split: option.splits)

lemma pop_split_slash:
  "0x2F \<notin> set k \<Longrightarrow> pop (js_split (js ''/'') (pre @ js ''/'' @ k)) = Some k"
proof -
  assume k: "0x2F \<notin> set k"
  have ne: "split_from [0x2F] [] (pre @ 0x2F # k) \<noteq> []" by (rule split_from_nonempty)
  from last_split_from_single[OF k, of "[]" pre] ne show ?thesis
    by (auto simp: pop_def js_split_def js_def last_rev hd_rev[symmetric] split: list.splits)
qed

subsection \<open>The example values, evaluated\<close>

lemma example_s3_upload:
  "uploadFileToS3 exampleEnv acceptingClient 1234 exampleFile (js ''uploads'') False =
     (Inr (js ''https://cdn.example.com/uploads/1234-my_file.png''),
      [PutObject (js ''media'') (js ''uploads/1234-my_file.png'') (js ''image/png'')])"
  by code_simp

lemma example_supabase_upload:
  "uploadFileToSupabase acceptingService 1234 exampleFile ProductImages False =
     (Inr (js ''https://x.supabase.co/storage/v1/object/public/media/1234-my_file.png''),
      [StorageUpload ProductImages (js ''1234-my_file.png''),
       GetPublicUrl ProductImages (js ''1234-my_file.png'')])"
  by code_simp

lemma example_sanitized: "sanitizedFileName exampleFile = js ''my_file.png''"
  by code_simp

lemma example_stamp: "number_to_string 1234 = js ''1234''"
  by code_simp

lemma example_delete_present:
  "fst (deleteFileFromSupabase acceptingService (js ''https://x/1-a.png'') ProductImages) = Inr ()"
  by code_simp

lemma example_delete_absent:
  "handleDelete acceptingService True (js ''https://x/9-z.png'') Image exampleGallery =
     (exampleGallery, [StorageRemove ProductImages [js ''9-z.png'']])"
  by code_simp

lemma example_delete_invalid:
  "fst (deleteFileFromSupabase acceptingService (js ''https://x/'') ProductImages)
     = Inl (Error (js ''Invalid file URL''))"
  by code_simp

lemma deleteFileFromSupabase_key:
  assumes "0x2F \<notin> set k" "k \<noteq> []"
  shows "deleteFileFromSupabase sb (pre @ js ''/'' @ k) b =
           (case remove_response sb b [k] of
              Some message \<Rightarrow> (Inl (Error (js ''Failed to delete file: '' @ message)),
                               [StorageRemove b [k], ConsoleError])
            | None \<Rightarrow> (Inr (), [StorageRemove b [k]]))"
  using assms
  by (auto simp: deleteFileFromSupabase_def Let_def pop_split_slash truthy_def tmpl_def
      split: option.splits)

lemma deleteFileFromSupabase_invalid:
  "deleteFileFromSupabase sb [] b = (Inl (Error (js ''Invalid file URL'')), [])"
  "deleteFileFromSupabase sb (pre @ js ''/'') b = (Inl (Error (js ''Invalid file URL'')), [])"
proof -
  show "deleteFileFromSupabase sb [] b = (Inl (Error (js ''Invalid file URL'')), [])"
    by (simp add: deleteFileFromSupabase_def Let_def pop_def js_split_def js_def truthy_def)
  have "pop (js_split (js ''/'') (pre @ js ''/'' @ [])) = Some []"
    by (rule pop_split_slash) simp
  then show "deleteFileFromSupabase sb (pre @ js ''/'') b = (Inl (Error (js ''Invalid file URL'')), [])"
    by (simp add: deleteFileFromSupabase_def Let_def truthy_def)
qed

lemma example_cdn_first:
  "\<not> js_includes (js ''https://'' @ cloudFrontDomain exampleEnv) (cloudFrontDomain exampleEnv @ js ''/'')
   \<and> \<not> js_includes (js ''uploads/1234-my_file.png'') (cloudFrontDomain exampleEnv @ js ''/'')
   \<and> bucket exampleEnv = js ''media'' \<and> cloudFrontDomain exampleEnv = js ''cdn.example.com''"
  by code_simp

lemma example_native_first:
  "\<not> js_includes (js ''https://media.s3.us-east-1.amazonaws.com/uploads/1234-my_file.png'')
        (cloudFrontDomain exampleEnv)
   \<and> \<not> js_includes (js ''https://media.s3.us-east-1'' @ js ''.amazonaws.com'') (js ''.amazonaws.com/'')
   \<and> \<not> js_includes (js ''uploads/1234-my_file.png'') (js ''.amazonaws.com/'')"
  by code_simp

lemma example_no_marker:
  "\<not> js_includes (js ''not-a-stored-url'') (cloudFrontDomain exampleEnv)
   \<and> \<not> js_includes (js ''not-a-stored-url'') (js ''.amazonaws.com/'')"
  by code_simp

subsection \<open>Keys, display names, size limit, gallery and deletion\<close>

text \<open>
  C3. Round trip of key construction and display name: for every file name, folder and
  timestamp, the display name derived from the key that upload builds, or from any
  address that ends with a slash and that key (the public addresses of both backends),
  is the sanitized file name; so it is for the address that a successful upload to the
  object store returns. The timestamp is the value of \<open>Date.now()\<close>, a natural number.
\<close>

theorem display_name_roundtrip:
  "getFileName (filePath t f) = Some (sanitizedFileName f)
   \<and> getFileName (key folder t f) = Some (sanitizedFileName f)
   \<and> getFileName (base @ js ''/'' @ filePath t f) = Some (sanitizedFileName f)
   \<and> getFileName (base @ js ''/'' @ key folder t f) = Some (sanitizedFileName f)
   \<and> (fst (uploadFileToS3 e client t f folder onp) = Inr u \<longrightarrow>
        getFileName u = Some (sanitizedFileName f))"
proof (intro conjI impI)
  show "getFileName (filePath t f) = Some (sanitizedFileName f)"
    by (simp only: filePath_def getFileName_stamped)
  show k: "getFileName (key folder t f) = Some (sanitizedFileName f)"
    by (simp only: key_def getFileName_slash_stamped)
  show "getFileName (base @ js ''/'' @ filePath t f) = Some (sanitizedFileName f)"
    by (simp only: filePath_def getFileName_slash_stamped)
  show b: "getFileName (base @ js ''/'' @ key folder t f) = Some (sanitizedFileName f)" for base
    using getFileName_slash_stamped[of "base @ js ''/'' @ folder" t f]
    by (simp add: key_def)
  assume "fst (uploadFileToS3 e client t f folder onp) = Inr u"
  from uploadFileToS3_url[OF this] b show "getFileName u = Some (sanitizedFileName f)"
    by blast
qed

theorem display_name_roundtrip_witness:
  "fst (uploadFileToS3 exampleEnv acceptingClient 1234 exampleFile (js ''uploads'') False)
     = Inr (js ''https://cdn.example.com/uploads/1234-my_file.png'')
   \<and> getFileName (js ''https://cdn.example.com/uploads/1234-my_file.png'')
     = Some (js ''my_file.png'')"
proof -
  have h: "fst (uploadFileToS3 exampleEnv acceptingClient 1234 exampleFile (js ''uploads'') False)
     = Inr (js ''https://cdn.example.com/uploads/1234-my_file.png'')"
    by (simp add: example_s3_upload)
  with display_name_roundtrip[of 1234 exampleFile "js ''uploads''" "[]" exampleEnv
      acceptingClient False "js ''https://cdn.example.com/uploads/1234-my_file.png''"]
  have "getFileName (js ''https://cdn.example.com/uploads/1234-my_file.png'')
     = Some (sanitizedFileName exampleFile)" by blast
  with h show ?thesis by (simp only: example_sanitized simp_thms)
qed

text \<open>
  C1 (amended). Sanitizing replaces every code unit of the file name that is not a
  Latin letter, a digit, a dot or a dash with an underscore and keeps every other.
  The raw object store receives the key \<open>{folder}/{timestamp}-{sanitizedName}\<close>; the
  managed backend receives the path \<open>{timestamp}-{sanitizedName}\<close>, without a folder,
  in the bucket it was called with.
\<close>

theorem upload_key_shape:
  "sanitizedFileName f =
     map (\<lambda>c. if is_lower c \<or> is_upper c \<or> is_digit c \<or> c = 0x2E \<or> c = 0x2D then c else 0x5F)
         (file_name f)
   \<and> (\<forall>b k ty. PutObject b k ty \<in> set (snd (uploadFileToS3 e client t f folder onp)) \<longrightarrow>
         k = folder @ js ''/'' @ number_to_string t @ js ''-'' @ sanitizedFileName f)
   \<and> (\<forall>u. fst (uploadFileToS3 e client t f folder onp) = Inr u \<longrightarrow>
         PutObject (bucket e)
           (folder @ js ''/'' @ number_to_string t @ js ''-'' @ sanitizedFileName f) (file_type f)
           \<in> set (snd (uploadFileToS3 e client t f folder onp)))
   \<and> StorageUpload bkt (number_to_string t @ js ''-'' @ sanitizedFileName f)
         \<in> set (snd (uploadFileToSupabase sb t f bkt onp))
   \<and> (\<forall>b p. StorageUpload b p \<in> set (snd (uploadFileToSupabase sb t f bkt onp)) \<longrightarrow>
         b = bkt \<and> p = number_to_string t @ js ''-'' @ sanitizedFileName f)"
proof (intro conjI)
  show "sanitizedFileName f =
     map (\<lambda>c. if is_lower c \<or> is_upper c \<or> is_digit c \<or> c = 0x2E \<or> c = 0x2D then c else 0x5F)
         (file_name f)"
    by (rule sanitized_map)
  show "\<forall>b k ty. PutObject b k ty \<in> set (snd (uploadFileToS3 e client t f folder onp)) \<longrightarrow>
         k = folder @ js ''/'' @ number_to_string t @ js ''-'' @ sanitizedFileName f"
    by (auto simp: uploadFileToS3_def Let_def key_def split: if_splits option.splits)
  show "\<forall>u. fst (uploadFileToS3 e client t f folder onp) = Inr u \<longrightarrow>
         PutObject (bucket e)
           (folder @ js ''/'' @ number_to_string t @ js ''-'' @ sanitizedFileName f) (file_type f)
           \<in> set (snd (uploadFileToS3 e client t f folder onp))"
    by (auto simp: uploadFileToS3_def Let_def key_def split: if_splits option.splits)
  show "StorageUpload bkt (number_to_string t @ js ''-'' @ sanitizedFileName f)
         \<in> set (snd (uploadFileToSupabase sb t f bkt onp))"
    by (auto simp: uploadFileToSupabase_def Let_def filePath_def split: sum.splits)
  show "\<forall>b p. StorageUpload b p \<in> set (snd (uploadFileToSupabase sb t f bkt onp)) \<longrightarrow>
         b = bkt \<and> p = number_to_string t @ js ''-'' @ sanitizedFileName f"
    by (auto simp: uploadFileToSupabase_def Let_def filePath_def split: sum.splits if_splits)
qed

theorem upload_key_shape_witness:
  "PutObject (js ''media'') (js ''uploads/1234-my_file.png'') (js ''image/png'')
     \<in> set (snd (uploadFileToS3 exampleEnv acceptingClient 1234 exampleFile (js ''uploads'') False))
   \<and> js ''uploads/1234-my_file.png''
       = js ''uploads'' @ js ''/'' @ number_to_string 1234 @ js ''-'' @ sanitizedFileName exampleFile
   \<and> PutObject (bucket exampleEnv)
       (js ''uploads'' @ js ''/'' @ number_to_string 1234 @ js ''-'' @ sanitizedFileName exampleFile)
       (file_type exampleFile)
     \<in> set (snd (uploadFileToS3 exampleEnv acceptingClient 1234 exampleFile (js ''uploads'') False))
   \<and> StorageUpload ProductImages (js ''1234'' @ js ''-'' @ js ''my_file.png'')
     \<in> set (snd (uploadFileToSupabase acceptingService 1234 exampleFile ProductImages False))
   \<and> js ''1234-my_file.png'' = number_to_string 1234 @ js ''-'' @ sanitizedFileName exampleFile"
proof -
  note t = upload_key_shape[of exampleFile exampleEnv acceptingClient 1234 "js ''uploads''" False
      ProductImages acceptingService]
  have m: "PutObject (js ''media'') (js ''uploads/1234-my_file.png'') (js ''image/png'')
     \<in> set (snd (uploadFileToS3 exampleEnv acceptingClient 1234 exampleFile (js ''uploads'') False))"
    by (simp add: example_s3_upload)
  with t have k: "js ''uploads/1234-my_file.png''
       = js ''uploads'' @ js ''/'' @ number_to_string 1234 @ js ''-'' @ sanitizedFileName exampleFile"
    by blast
  have "fst (uploadFileToS3 exampleEnv acceptingClient 1234 exampleFile (js ''uploads'') False)
        = Inr (js ''https://cdn.example.com/uploads/1234-my_file.png'')"
    by (simp add: example_s3_upload)
  with t have p: "PutObject (bucket exampleEnv)
       (js ''uploads'' @ js ''/'' @ number_to_string 1234 @ js ''-'' @ sanitizedFileName exampleFile)
       (file_type exampleFile)
     \<in> set (snd (uploadFileToS3 exampleEnv acceptingClient 1234 exampleFile (js ''uploads'') False))"
    by blast
  from t have u: "StorageUpload ProductImages
       (number_to_string 1234 @ js ''-'' @ sanitizedFileName exampleFile)
     \<in> set (snd (uploadFileToSupabase acceptingService 1234 exampleFile ProductImages False))"
    by blast
  have "StorageUpload ProductImages (js ''1234-my_file.png'')
     \<in> set (snd (uploadFileToSupabase acceptingService 1234 exampleFile ProductImages False))"
    by (simp add: example_supabase_upload)
  with t have q: "js ''1234-my_file.png''
     = number_to_string 1234 @ js ''-'' @ sanitizedFileName exampleFile"
    by blast
  from u have u': "StorageUpload ProductImages (js ''1234'' @ js ''-'' @ js ''my_file.png'')
     \<in> set (snd (uploadFileToSupabase acceptingService 1234 exampleFile ProductImages False))"
    by (simp only: example_sanitized example_stamp)
  from m k p u' q show ?thesis by blast
qed

text \<open>
  The claim as stated fails for the managed backend: the path it stores under has no
  folder in front, and no slash at all.
\<close>

theorem upload_key_shape_counterexample:
  "snd (uploadFileToSupabase acceptingService 1234 exampleFile ProductImages False) =
     [StorageUpload ProductImages (js ''1234-my_file.png''),
      GetPublicUrl ProductImages (js ''1234-my_file.png'')]
   \<and> 0x2F \<notin> set (js ''1234-my_file.png'')"
  by (simp add: example_supabase_upload) (simp add: js_def)

text \<open>
  C5. For every file and every limit \<open>maxSizeMB\<close>: a file of at most
  \<open>maxSizeMB * 1024 * 1024\<close> bytes is handed to the storage upload; a larger file is
  rejected with the size message as the form's error and nothing at all is sent.
\<close>

theorem upload_size_boundary:
  "(file_size f \<le> maxSizeMB * 1024 * 1024 \<longrightarrow>
      StorageUpload bkt (filePath t f)
        \<in> set (snd (handleFileSelect sb t bkt maxSizeMB (Some f) st)))
   \<and> (maxSizeMB * 1024 * 1024 < file_size f \<longrightarrow>
      handleFileSelect sb t bkt maxSizeMB (Some f) st =
        (st\<lparr>FileUpload.error := js ''File size must be less than '' @ number_to_string maxSizeMB
                                   @ js ''MB''\<rparr>, []))"
  by (auto simp: handleFileSelect_def Let_def uploadFileToSupabase_def split: sum.splits prod.splits)

theorem upload_size_boundary_witness:
  "StorageUpload ProductVideos (filePath 1234 (exampleFile\<lparr>file_size := 1048576\<rparr>))
     \<in> set (snd (handleFileSelect acceptingService 1234 ProductVideos 1
                  (Some (exampleFile\<lparr>file_size := 1048576\<rparr>))
                  \<lparr>uploading = False, progress = 0, error = [], success = False\<rparr>))
   \<and> handleFileSelect acceptingService 1234 ProductVideos 1
        (Some (exampleFile\<lparr>file_size := 1048577\<rparr>))
        \<lparr>uploading = False, progress = 0, error = [], success = False\<rparr>
      = (\<lparr>uploading = False, progress = 0,
          error = js ''File size must be less than '' @ number_to_string 1 @ js ''MB'',
          success = False\<rparr>, [])"
proof -
  have a: "file_size (exampleFile\<lparr>file_size := 1048576\<rparr>) \<le> 1 * 1024 * 1024" by simp
  have b: "1 * 1024 * 1024 < file_size (exampleFile\<lparr>file_size := 1048577\<rparr>)" by simp
  from upload_size_boundary[of "exampleFile\<lparr>file_size := 1048576\<rparr>" 1 ProductVideos 1234
      acceptingService "\<lparr>uploading = False, progress = 0, error = [], success = False\<rparr>"] a
  have "StorageUpload ProductVideos (filePath 1234 (exampleFile\<lparr>file_size := 1048576\<rparr>))
     \<in> set (snd (handleFileSelect acceptingService 1234 ProductVideos 1
                  (Some (exampleFile\<lparr>file_size := 1048576\<rparr>))
                  \<lparr>uploading = False, progress = 0, error = [], success = False\<rparr>))"
    by blast
  moreover
  from upload_size_boundary[of "exampleFile\<lparr>file_size := 1048577\<rparr>" 1 ProductVideos 1234
      acceptingService "\<lparr>uploading = False, progress = 0, error = [], success = False\<rparr>"] b
  have "handleFileSelect acceptingService 1234 ProductVideos 1
        (Some (exampleFile\<lparr>file_size := 1048577\<rparr>))
        \<lparr>uploading = False, progress = 0, error = [], success = False\<rparr>
      = (\<lparr>uploading = False, progress = 0, error = [], success = False\<rparr>
           \<lparr>FileUpload.error := js ''File size must be less than '' @ number_to_string 1 @ js ''MB''\<rparr>, [])"
    by blast
  ultimately show ?thesis by simp
qed

text \<open>
  C9 (amended). Once the user has confirmed: if the adapter's delete succeeds, exactly
  the entries equal to the address leave the sequence of that kind, the other sequence
  stays, and no error is shown; if it fails, both sequences stay and the error's
  message, which is not empty, is shown. For an address in neither sequence both
  sequences stay whatever the adapter answers: an error is shown only if the adapter's
  delete fails, since membership is not checked. Without confirmation nothing happens.
\<close>

theorem gallery_remove:
  "(fst (deleteFileFromSupabase sb u (if ty = Image then ProductImages else ProductVideos)) = Inr ()
      \<longrightarrow> images (fst (handleDelete sb True u ty st))
            = (if ty = Image then filter (\<lambda>x. x \<noteq> u) (images st) else images st)
        \<and> videos (fst (handleDelete sb True u ty st))
            = (if ty = Video then filter (\<lambda>x. x \<noteq> u) (videos st) else videos st)
        \<and> MediaManager.error (fst (handleDelete sb True u ty st)) = [])
   \<and> (\<forall>err. fst (deleteFileFromSupabase sb u (if ty = Image then ProductImages else ProductVideos))
              = Inl err
      \<longrightarrow> images (fst (handleDelete sb True u ty st)) = images st
        \<and> videos (fst (handleDelete sb True u ty st)) = videos st
        \<and> MediaManager.error (fst (handleDelete sb True u ty st)) = message_of err
        \<and> message_of err \<noteq> [])
   \<and> (u \<notin> set (images st) \<and> u \<notin> set (videos st)
      \<longrightarrow> images (fst (handleDelete sb True u ty st)) = images st
        \<and> videos (fst (handleDelete sb True u ty st)) = videos st)
   \<and> handleDelete sb False u ty st = (st, [])"
proof (intro conjI impI allI)
  assume ok: "fst (deleteFileFromSupabase sb u (if ty = Image then ProductImages else ProductVideos)) = Inr ()"
  then show "images (fst (handleDelete sb True u ty st))
            = (if ty = Image then filter (\<lambda>x. x \<noteq> u) (images st) else images st)"
    by (cases ty) (auto simp: handleDelete_def split: prod.splits sum.splits)
  from ok show "videos (fst (handleDelete sb True u ty st))
            = (if ty = Video then filter (\<lambda>x. x \<noteq> u) (videos st) else videos st)"
    by (cases ty) (auto simp: handleDelete_def split: prod.splits sum.splits)
  from ok show "MediaManager.error (fst (handleDelete sb True u ty st)) = []"
    by (cases ty) (auto simp: handleDelete_def split: prod.splits sum.splits)
next
  fix err
  assume bad: "fst (deleteFileFromSupabase sb u (if ty = Image then ProductImages else ProductVideos)) = Inl err"
  then show "images (fst (handleDelete sb True u ty st)) = images st"
    by (cases ty) (auto simp: handleDelete_def split: prod.splits sum.splits)
  from bad show "videos (fst (handleDelete sb True u ty st)) = videos st"
    by (cases ty) (auto simp: handleDelete_def split: prod.splits sum.splits)
  from bad show "MediaManager.error (fst (handleDelete sb True u ty st)) = message_of err"
    by (cases ty) (auto simp: handleDelete_def split: prod.splits sum.splits)
  from bad show "message_of err \<noteq> []" by (rule deleteFileFromSupabase_message)
next
  assume "u \<notin> set (images st) \<and> u \<notin> set (videos st)"
  then have f: "filter (\<lambda>x. x \<noteq> u) (images st) = images st"
    "filter (\<lambda>x. x \<noteq> u) (videos st) = videos st"
    by (auto simp: filter_id_conv)
  from f show "images (fst (handleDelete sb True u ty st)) = images st"
    by (cases ty) (auto simp: handleDelete_def split: prod.splits sum.splits)
  from f show "videos (fst (handleDelete sb True u ty st)) = videos st"
    by (cases ty) (auto simp: handleDelete_def split: prod.splits sum.splits)
next
  show "handleDelete sb False u ty st = (st, [])" by (simp add: handleDelete_def)
qed

theorem gallery_remove_witness:
  "images (fst (handleDelete acceptingService True (js ''https://x/1-a.png'') Image exampleGallery))
     = [js ''https://x/2-b.png'']
   \<and> videos (fst (handleDelete acceptingService True (js ''https://x/1-a.png'') Image exampleGallery))
     = [js ''https://x/3-c.mp4'']
   \<and> images (fst (handleDelete acceptingService True (js ''https://x/'') Image exampleGallery))
     = images exampleGallery
   \<and> MediaManager.error
        (fst (handleDelete acceptingService True (js ''https://x/'') Image exampleGallery))
     = js ''Invalid file URL''
   \<and> images (fst (handleDelete acceptingService True (js ''https://x/9-z.png'') Image exampleGallery))
     = images exampleGallery"
proof -
  have ne: "js ''https://x/1-a.png'' \<noteq> js ''https://x/2-b.png''" by (simp add: js_def)
  from gallery_remove[of acceptingService "js ''https://x/1-a.png''" Image exampleGallery]
    example_delete_present
  have "images (fst (handleDelete acceptingService True (js ''https://x/1-a.png'') Image exampleGallery))
          = filter (\<lambda>x. x \<noteq> js ''https://x/1-a.png'') (images exampleGallery)
      \<and> videos (fst (handleDelete acceptingService True (js ''https://x/1-a.png'') Image exampleGallery))
          = videos exampleGallery"
    by simp
  with ne have a: "images (fst (handleDelete acceptingService True (js ''https://x/1-a.png'') Image exampleGallery))
     = [js ''https://x/2-b.png'']
   \<and> videos (fst (handleDelete acceptingService True (js ''https://x/1-a.png'') Image exampleGallery))
     = [js ''https://x/3-c.mp4'']" by simp
  from gallery_remove[of acceptingService "js ''https://x/''" Image exampleGallery]
    example_delete_invalid
  have b: "images (fst (handleDelete acceptingService True (js ''https://x/'') Image exampleGallery))
     = images exampleGallery
   \<and> MediaManager.error
        (fst (handleDelete acceptingService True (js ''https://x/'') Image exampleGallery))
     = js ''Invalid file URL''"
    by (simp add: message_of_def)
  have "js ''https://x/9-z.png'' \<notin> set (images exampleGallery)
      \<and> js ''https://x/9-z.png'' \<notin> set (videos exampleGallery)" by (simp add: js_def)
  with gallery_remove[of acceptingService "js ''https://x/9-z.png''" Image exampleGallery]
  have c: "images (fst (handleDelete acceptingService True (js ''https://x/9-z.png'') Image exampleGallery))
     = images exampleGallery" by blast
  from a b c show ?thesis by blast
qed

text \<open>
  The claim as stated fails in its last part: for an address that is not in the
  gallery and a service that accepts the removal, the gallery is unchanged and no
  error is shown.
\<close>

theorem gallery_remove_counterexample:
  "js ''https://x/9-z.png'' \<notin> set (images exampleGallery)
   \<and> handleDelete acceptingService True (js ''https://x/9-z.png'') Image exampleGallery =
       (exampleGallery, [StorageRemove ProductImages [js ''9-z.png'']])
   \<and> MediaManager.error exampleGallery = []"
  by (simp add: example_delete_absent) (simp add: js_def)

lemma uploadFileToS3_cdn_url:
  "cloudFrontDomain e \<noteq> [] \<Longrightarrow> fst (uploadFileToS3 e client t f folder onp) = Inr u \<Longrightarrow>
     u = js ''https://'' @ cloudFrontDomain e @ js ''/'' @ key folder t f"
  by (auto simp: uploadFileToS3_def Let_def split: if_splits option.splits)

lemma delete_key_undefined:
  assumes "js_includes u (cloudFrontDomain e)" "\<not> js_includes u (cloudFrontDomain e @ js ''/'')"
  shows "delete_key e u = None"
proof -
  have "at_index (js_split (cloudFrontDomain e @ js ''/'') u) 1 = None"
    by (rule split_second_none) (simp add: js_def, rule assms(2))
  with assms(1) show ?thesis by (simp add: delete_key_def)
qed

lemma deleteFileFromS3_own_error:
  "bucket e \<noteq> [] \<Longrightarrow> fst (deleteFileFromS3 e client u) \<noteq> Inl (Error m)"
  by (auto simp: deleteFileFromS3_def split: option.splits)

lemma deleteFileFromSupabase_whole:
  assumes "0x2F \<notin> set u" "u \<noteq> []"
  shows "deleteFileFromSupabase sb u b =
           (case remove_response sb b [u] of
              Some message \<Rightarrow> (Inl (Error (js ''Failed to delete file: '' @ message)),
                               [StorageRemove b [u], ConsoleError])
            | None \<Rightarrow> (Inr (), [StorageRemove b [u]]))"
proof -
  have "pop (js_split (js ''/'') u) = Some u"
    using split_from_single_none[OF assms(1), of "[]"]
    by (simp add: pop_def js_split_def js_def)
  with assms(2) show ?thesis
    by (auto simp: deleteFileFromSupabase_def Let_def truthy_def tmpl_def split: option.splits)
qed

lemma example_cdn_no_slash:
  "js_includes (js ''cdn.example.com'') (cloudFrontDomain exampleEnv)
   \<and> \<not> js_includes (js ''cdn.example.com'') (cloudFrontDomain exampleEnv @ js ''/'')
   \<and> \<not> js_includes (key (js ''uploads'') 1234 exampleFile) (cloudFrontDomain exampleEnv @ js ''/'')
   \<and> key (js ''uploads'') 1234 exampleFile = js ''uploads/1234-my_file.png''"
  by code_simp

text \<open>
  C4 (amended). With a bucket and a content-delivery domain both configured, the raw
  object store's delete issues exactly one delete command, for the key it reads off
  the address, and raises no error of its own; it succeeds exactly when the client
  accepts the command. Where the domain and a slash first occur right before a
  remainder that does not contain them, the key is that remainder; so it is for the
  address that a successful upload returns. Where the address contains the domain but
  not the domain and a slash, the key is undefined. For an address without the
  domain, where \<open>.amazonaws.com/\<close> first occurs right before a non-empty remainder that
  does not contain it, the key is that remainder; for an address with neither, the
  whole address is the key. Nothing is said of a content-delivery domain that is not
  configured. The managed backend's delete takes the last segment of the address (the
  whole address, when it has no slash) as the key, and fails with \<open>Invalid file URL\<close>,
  sending nothing, when the address is empty or ends with a slash.
\<close>

theorem delete_key_recovery:
  "(bucket e \<noteq> [] \<and> cloudFrontDomain e \<noteq> []
    \<longrightarrow> snd (deleteFileFromS3 e client u) = [DeleteObject (bucket e) (delete_key e u)]
        \<and> (fst (deleteFileFromS3 e client u) = Inr ()
             \<longleftrightarrow> delete_response client (bucket e) (delete_key e u) = None)
        \<and> (\<forall>m. fst (deleteFileFromS3 e client u) \<noteq> Inl (Error m)))
   \<and> (bucket e \<noteq> [] \<and> cloudFrontDomain e \<noteq> [] \<and> u = pre @ cloudFrontDomain e @ js ''/'' @ k
      \<and> \<not> js_includes (pre @ cloudFrontDomain e) (cloudFrontDomain e @ js ''/'')
      \<and> \<not> js_includes k (cloudFrontDomain e @ js ''/'')
    \<longrightarrow> snd (deleteFileFromS3 e client u) = [DeleteObject (bucket e) (Some k)])
   \<and> (bucket e \<noteq> [] \<and> cloudFrontDomain e \<noteq> []
      \<and> fst (uploadFileToS3 e client t f folder onp) = Inr u
      \<and> \<not> js_includes (js ''https://'' @ cloudFrontDomain e) (cloudFrontDomain e @ js ''/'')
      \<and> \<not> js_includes (key folder t f) (cloudFrontDomain e @ js ''/'')
    \<longrightarrow> snd (deleteFileFromS3 e client u) = [DeleteObject (bucket e) (Some (key folder t f))])
   \<and> (bucket e \<noteq> [] \<and> cloudFrontDomain e \<noteq> [] \<and> js_includes u (cloudFrontDomain e)
      \<and> \<not> js_includes u (cloudFrontDomain e @ js ''/'')
    \<longrightarrow> snd (deleteFileFromS3 e client u) = [DeleteObject (bucket e) None])
   \<and> (bucket e \<noteq> [] \<and> cloudFrontDomain e \<noteq> [] \<and> \<not> js_includes u (cloudFrontDomain e)
      \<and> u = pre @ js ''.amazonaws.com/'' @ k \<and> k \<noteq> []
      \<and> \<not> js_includes (pre @ js ''.amazonaws.com'') (js ''.amazonaws.com/'')
      \<and> \<not> js_includes k (js ''.amazonaws.com/'')
    \<longrightarrow> snd (deleteFileFromS3 e client u) = [DeleteObject (bucket e) (Some k)])
   \<and> (bucket e \<noteq> [] \<and> cloudFrontDomain e \<noteq> [] \<and> \<not> js_includes u (cloudFrontDomain e)
      \<and> \<not> js_includes u (js ''.amazonaws.com/'')
    \<longrightarrow> snd (deleteFileFromS3 e client u) = [DeleteObject (bucket e) (Some u)]
        \<and> (fst (deleteFileFromS3 e client u) = Inr ()
             \<longleftrightarrow> delete_response client (bucket e) (Some u) = None))
   \<and> (u = pre @ js ''/'' @ k \<and> 0x2F \<notin> set k \<and> k \<noteq> []
    \<longrightarrow> deleteFileFromSupabase sb u b =
          (case remove_response sb b [k] of
             Some message \<Rightarrow> (Inl (Error (js ''Failed to delete file: '' @ message)),
                              [StorageRemove b [k], ConsoleError])
           | None \<Rightarrow> (Inr (), [StorageRemove b [k]])))
   \<and> (0x2F \<notin> set u \<and> u \<noteq> []
    \<longrightarrow> deleteFileFromSupabase sb u b =
          (case remove_response sb b [u] of
             Some message \<Rightarrow> (Inl (Error (js ''Failed to delete file: '' @ message)),
                              [StorageRemove b [u], ConsoleError])
           | None \<Rightarrow> (Inr (), [StorageRemove b [u]])))
   \<and> (u = [] \<or> u = pre @ js ''/''
    \<longrightarrow> deleteFileFromSupabase sb u b = (Inl (Error (js ''Invalid file URL'')), []))"
proof (intro conjI impI allI)
  assume a: "bucket e \<noteq> [] \<and> cloudFrontDomain e \<noteq> []"
  with deleteFileFromS3_trace[of e client u]
  show "snd (deleteFileFromS3 e client u) = [DeleteObject (bucket e) (delete_key e u)]"
    by blast
  from a deleteFileFromS3_trace[of e client u]
  show "fst (deleteFileFromS3 e client u) = Inr ()
          \<longleftrightarrow> delete_response client (bucket e) (delete_key e u) = None"
    by blast
  fix m
  from a show "fst (deleteFileFromS3 e client u) \<noteq> Inl (Error m)"
    using deleteFileFromS3_own_error[of e client u m] by blast
next
  assume "bucket e \<noteq> [] \<and> cloudFrontDomain e \<noteq> [] \<and> u = pre @ cloudFrontDomain e @ js ''/'' @ k
      \<and> \<not> js_includes (pre @ cloudFrontDomain e) (cloudFrontDomain e @ js ''/'')
      \<and> \<not> js_includes k (cloudFrontDomain e @ js ''/'')"
  then have "bucket e \<noteq> []" and "delete_key e u = Some k"
    using delete_key_cdn[of u pre e k] by blast+
  then show "snd (deleteFileFromS3 e client u) = [DeleteObject (bucket e) (Some k)]"
    using deleteFileFromS3_trace[of e client u] by simp
next
  assume a: "bucket e \<noteq> [] \<and> cloudFrontDomain e \<noteq> []
      \<and> fst (uploadFileToS3 e client t f folder onp) = Inr u
      \<and> \<not> js_includes (js ''https://'' @ cloudFrontDomain e) (cloudFrontDomain e @ js ''/'')
      \<and> \<not> js_includes (key folder t f) (cloudFrontDomain e @ js ''/'')"
  then have "u = js ''https://'' @ cloudFrontDomain e @ js ''/'' @ key folder t f"
    using uploadFileToS3_cdn_url[of e client t f folder onp u] by blast
  with a have "bucket e \<noteq> []" and "delete_key e u = Some (key folder t f)"
    using delete_key_cdn[of u "js ''https://''" e "key folder t f"] by blast+
  then show "snd (deleteFileFromS3 e client u) = [DeleteObject (bucket e) (Some (key folder t f))]"
    using deleteFileFromS3_trace[of e client u] by simp
next
  assume "bucket e \<noteq> [] \<and> cloudFrontDomain e \<noteq> [] \<and> js_includes u (cloudFrontDomain e)
      \<and> \<not> js_includes u (cloudFrontDomain e @ js ''/'')"
  then have "bucket e \<noteq> []" and "delete_key e u = None"
    using delete_key_undefined[of u e] by blast+
  then show "snd (deleteFileFromS3 e client u) = [DeleteObject (bucket e) None]"
    using deleteFileFromS3_trace[of e client u] by simp
next
  assume "bucket e \<noteq> [] \<and> cloudFrontDomain e \<noteq> [] \<and> \<not> js_includes u (cloudFrontDomain e)
      \<and> u = pre @ js ''.amazonaws.com/'' @ k \<and> k \<noteq> []
      \<and> \<not> js_includes (pre @ js ''.amazonaws.com'') (js ''.amazonaws.com/'')
      \<and> \<not> js_includes k (js ''.amazonaws.com/'')"
  then have "bucket e \<noteq> []" and "delete_key e u = Some k"
    using delete_key_native[of u e pre k] by blast+
  then show "snd (deleteFileFromS3 e client u) = [DeleteObject (bucket e) (Some k)]"
    using deleteFileFromS3_trace[of e client u] by simp
next
  assume a: "bucket e \<noteq> [] \<and> cloudFrontDomain e \<noteq> [] \<and> \<not> js_includes u (cloudFrontDomain e)
      \<and> \<not> js_includes u (js ''.amazonaws.com/'')"
  then have k: "delete_key e u = Some u" using delete_key_fallback by blast
  from a k deleteFileFromS3_trace[of e client u]
  show "snd (deleteFileFromS3 e client u) = [DeleteObject (bucket e) (Some u)]" by simp
  from a k deleteFileFromS3_trace[of e client u]
  show "fst (deleteFileFromS3 e client u) = Inr ()
             \<longleftrightarrow> delete_response client (bucket e) (Some u) = None" by simp
next
  assume "u = pre @ js ''/'' @ k \<and> 0x2F \<notin> set k \<and> k \<noteq> []"
  then have "u = pre @ js ''/'' @ k" "0x2F \<notin> set k" "k \<noteq> []" by blast+
  from deleteFileFromSupabase_key[OF this(2,3), of sb pre b] this(1)
  show "deleteFileFromSupabase sb u b =
          (case remove_response sb b [k] of
             Some message \<Rightarrow> (Inl (Error (js ''Failed to delete file: '' @ message)),
                              [StorageRemove b [k], ConsoleError])
           | None \<Rightarrow> (Inr (), [StorageRemove b [k]]))"
    by (simp only:)
next
  assume "0x2F \<notin> set u \<and> u \<noteq> []"
  then show "deleteFileFromSupabase sb u b =
          (case remove_response sb b [u] of
             Some message \<Rightarrow> (Inl (Error (js ''Failed to delete file: '' @ message)),
                              [StorageRemove b [u], ConsoleError])
           | None \<Rightarrow> (Inr (), [StorageRemove b [u]]))"
    using deleteFileFromSupabase_whole[of u sb b] by blast
next
  assume "u = [] \<or> u = pre @ js ''/''"
  then show "deleteFileFromSupabase sb u b = (Inl (Error (js ''Invalid file URL'')), [])"
    using deleteFileFromSupabase_invalid(1)[of sb b] deleteFileFromSupabase_invalid(2)[of sb pre b]
    by auto
qed

theorem delete_key_recovery_witness:
  "snd (deleteFileFromS3 exampleEnv acceptingClient
          (js ''https://cdn.example.com/uploads/1234-my_file.png''))
     = [DeleteObject (js ''media'') (Some (js ''uploads/1234-my_file.png''))]
   \<and> fst (deleteFileFromS3 exampleEnv acceptingClient
          (js ''https://cdn.example.com/uploads/1234-my_file.png'')) = Inr ()
   \<and> fst (uploadFileToS3 exampleEnv acceptingClient 1234 exampleFile (js ''uploads'') False)
     = Inr (js ''https://cdn.example.com/uploads/1234-my_file.png'')
   \<and> snd (deleteFileFromS3 exampleEnv acceptingClient (js ''cdn.example.com''))
     = [DeleteObject (js ''media'') None]
   \<and> snd (deleteFileFromS3 exampleEnv acceptingClient
          (js ''https://media.s3.us-east-1.amazonaws.com/uploads/1234-my_file.png''))
     = [DeleteObject (js ''media'') (Some (js ''uploads/1234-my_file.png''))]
   \<and> snd (deleteFileFromS3 exampleEnv acceptingClient (js ''not-a-stored-url''))
     = [DeleteObject (js ''media'') (Some (js ''not-a-stored-url''))]
   \<and> deleteFileFromSupabase acceptingService
        (js ''https://x.supabase.co/storage/v1/object/public/media/1234-my_file.png'') ProductImages
     = (Inr (), [StorageRemove ProductImages [js ''1234-my_file.png'']])
   \<and> deleteFileFromSupabase acceptingService (js ''1234-my_file.png'') ProductImages
     = (Inr (), [StorageRemove ProductImages [js ''1234-my_file.png'']])
   \<and> deleteFileFromSupabase acceptingService (js ''https://x.supabase.co/'') ProductImages
     = (Inl (Error (js ''Invalid file URL'')), [])"
proof -
  let ?cdnUrl = "js ''https://cdn.example.com/uploads/1234-my_file.png''"
  let ?nativeUrl = "js ''https://media.s3.us-east-1.amazonaws.com/uploads/1234-my_file.png''"
  let ?publicUrl = "js ''https://x.supabase.co/storage/v1/object/public/media/1234-my_file.png''"
  let ?k = "js ''uploads/1234-my_file.png''"
  have bk: "bucket exampleEnv = js ''media''" and cd: "cloudFrontDomain exampleEnv = js ''cdn.example.com''"
    by (simp_all add: bucket_def cloudFrontDomain_def or_empty_def)
  have n1: "bucket exampleEnv \<noteq> []" and n2: "cloudFrontDomain exampleEnv \<noteq> []"
    by (simp_all add: bucket_def cloudFrontDomain_def or_empty_def js_def)
  have n3: "?k \<noteq> []" and n4: "js ''1234-my_file.png'' \<noteq> []"
    and n5: "0x2F \<notin> set (js ''1234-my_file.png'')"
    by (simp_all add: js_def)
  have s1: "?cdnUrl = js ''https://'' @ cloudFrontDomain exampleEnv @ js ''/'' @ ?k"
    by (simp add: cd) (simp add: js_def)
  note f1 = example_cdn_first[THEN conjunct1]
  note f2 = example_cdn_first[THEN conjunct2, THEN conjunct1]
  note g1 = example_cdn_no_slash[THEN conjunct1]
  note g2 = example_cdn_no_slash[THEN conjunct2, THEN conjunct1]
  note g3 = example_cdn_no_slash[THEN conjunct2, THEN conjunct2, THEN conjunct1]
  note g4 = example_cdn_no_slash[THEN conjunct2, THEN conjunct2, THEN conjunct2]
  note m1 = example_native_first[THEN conjunct1]
  note m2 = example_native_first[THEN conjunct2, THEN conjunct1]
  note m3 = example_native_first[THEN conjunct2, THEN conjunct2]
  note o1 = example_no_marker[THEN conjunct1]
  note o2 = example_no_marker[THEN conjunct2]
  have up: "fst (uploadFileToS3 exampleEnv acceptingClient 1234 exampleFile (js ''uploads'') False)
     = Inr ?cdnUrl"
    by (simp add: example_s3_upload)

  note T = delete_key_recovery[of exampleEnv acceptingClient ?cdnUrl "js ''https://''" ?k
      1234 exampleFile "js ''uploads''" False]
  have "fst (deleteFileFromS3 exampleEnv acceptingClient ?cdnUrl) = Inr ()
        \<longleftrightarrow> delete_response acceptingClient (bucket exampleEnv) (delete_key exampleEnv ?cdnUrl) = None"
    using T[THEN conjunct1, THEN mp, OF conjI[OF n1 n2], THEN conjunct2, THEN conjunct1] .
  then have a0: "fst (deleteFileFromS3 exampleEnv acceptingClient ?cdnUrl) = Inr ()"
    by simp
  have "snd (deleteFileFromS3 exampleEnv acceptingClient ?cdnUrl)
          = [DeleteObject (bucket exampleEnv) (Some ?k)]"
    using T[THEN conjunct2, THEN conjunct1, THEN mp,
        OF conjI[OF n1 conjI[OF n2 conjI[OF s1 conjI[OF f1 f2]]]]] .
  then have a: "snd (deleteFileFromS3 exampleEnv acceptingClient ?cdnUrl)
          = [DeleteObject (js ''media'') (Some ?k)]"
    by (simp only: bk)
  have a1: "snd (deleteFileFromS3 exampleEnv acceptingClient ?cdnUrl)
          = [DeleteObject (bucket exampleEnv) (Some (key (js ''uploads'') 1234 exampleFile))]"
    using T[THEN conjunct2, THEN conjunct2, THEN conjunct1, THEN mp,
        OF conjI[OF n1 conjI[OF n2 conjI[OF up conjI[OF f1 g3]]]]] .

  note T2 = delete_key_recovery[of exampleEnv acceptingClient "js ''cdn.example.com''"]
  have "snd (deleteFileFromS3 exampleEnv acceptingClient (js ''cdn.example.com''))
          = [DeleteObject (bucket exampleEnv) None]"
    using T2[THEN conjunct2, THEN conjunct2, THEN conjunct2, THEN conjunct1, THEN mp,
        OF conjI[OF n1 conjI[OF n2 conjI[OF g1 g2]]]] .
  then have a2: "snd (deleteFileFromS3 exampleEnv acceptingClient (js ''cdn.example.com''))
          = [DeleteObject (js ''media'') None]"
    by (simp only: bk)

  have s2: "?nativeUrl = js ''https://media.s3.us-east-1'' @ js ''.amazonaws.com/'' @ ?k"
    by (simp add: js_def)
  note T3 = delete_key_recovery[of exampleEnv acceptingClient ?nativeUrl
      "js ''https://media.s3.us-east-1''" ?k]
  have "snd (deleteFileFromS3 exampleEnv acceptingClient ?nativeUrl)
          = [DeleteObject (bucket exampleEnv) (Some ?k)]"
    using T3[THEN conjunct2, THEN conjunct2, THEN conjunct2, THEN conjunct2, THEN conjunct1, THEN mp,
        OF conjI[OF n1 conjI[OF n2 conjI[OF m1 conjI[OF s2 conjI[OF n3 conjI[OF m2 m3]]]]]]] .
  then have b: "snd (deleteFileFromS3 exampleEnv acceptingClient ?nativeUrl)
          = [DeleteObject (js ''media'') (Some ?k)]"
    by (simp only: bk)

  note T4 = delete_key_recovery[of exampleEnv acceptingClient "js ''not-a-stored-url''"]
  have "snd (deleteFileFromS3 exampleEnv acceptingClient (js ''not-a-stored-url''))
          = [DeleteObject (bucket exampleEnv) (Some (js ''not-a-stored-url''))]"
    using T4[THEN conjunct2, THEN conjunct2, THEN conjunct2, THEN conjunct2, THEN conjunct2,
        THEN conjunct1, THEN mp, OF conjI[OF n1 conjI[OF n2 conjI[OF o1 o2]]], THEN conjunct1] .
  then have c: "snd (deleteFileFromS3 exampleEnv acceptingClient (js ''not-a-stored-url''))
          = [DeleteObject (js ''media'') (Some (js ''not-a-stored-url''))]"
    by (simp only: bk)

  have s4: "?publicUrl = js ''https://x.supabase.co/storage/v1/object/public/media'' @ js ''/''
              @ js ''1234-my_file.png''"
    by (simp add: js_def)
  note T5 = delete_key_recovery[where u = ?publicUrl
      and pre = "js ''https://x.supabase.co/storage/v1/object/public/media''"
      and k = "js ''1234-my_file.png''" and sb = acceptingService and b = ProductImages]
  have "deleteFileFromSupabase acceptingService ?publicUrl ProductImages =
          (case remove_response acceptingService ProductImages [js ''1234-my_file.png''] of
             Some message \<Rightarrow> (Inl (Error (js ''Failed to delete file: '' @ message)),
                              [StorageRemove ProductImages [js ''1234-my_file.png''], ConsoleError])
           | None \<Rightarrow> (Inr (), [StorageRemove ProductImages [js ''1234-my_file.png'']]))"
    using T5[THEN conjunct2, THEN conjunct2, THEN conjunct2, THEN conjunct2, THEN conjunct2,
        THEN conjunct2, THEN conjunct1, THEN mp, OF conjI[OF s4 conjI[OF n5 n4]]] .
  then have d: "deleteFileFromSupabase acceptingService ?publicUrl ProductImages
     = (Inr (), [StorageRemove ProductImages [js ''1234-my_file.png'']])"
    by simp

  note T6 = delete_key_recovery[where u = "js ''1234-my_file.png''"
      and sb = acceptingService and b = ProductImages]
  have "deleteFileFromSupabase acceptingService (js ''1234-my_file.png'') ProductImages =
          (case remove_response acceptingService ProductImages [js ''1234-my_file.png''] of
             Some message \<Rightarrow> (Inl (Error (js ''Failed to delete file: '' @ message)),
                              [StorageRemove ProductImages [js ''1234-my_file.png''], ConsoleError])
           | None \<Rightarrow> (Inr (), [StorageRemove ProductImages [js ''1234-my_file.png'']]))"
    using T6[THEN conjunct2, THEN conjunct2, THEN conjunct2, THEN conjunct2, THEN conjunct2,
        THEN conjunct2, THEN conjunct2, THEN conjunct1, THEN mp, OF conjI[OF n5 n4]] .
  then have d1: "deleteFileFromSupabase acceptingService (js ''1234-my_file.png'') ProductImages
     = (Inr (), [StorageRemove ProductImages [js ''1234-my_file.png'']])"
    by simp

  have s5: "js ''https://x.supabase.co/'' = js ''https://x.supabase.co'' @ js ''/''"
    by (simp add: js_def)
  note T7 = delete_key_recovery[where u = "js ''https://x.supabase.co/''"
      and pre = "js ''https://x.supabase.co''" and sb = acceptingService and b = ProductImages]
  have e: "deleteFileFromSupabase acceptingService (js ''https://x.supabase.co/'') ProductImages
     = (Inl (Error (js ''Invalid file URL'')), [])"
    using T7[THEN conjunct2, THEN conjunct2, THEN conjunct2, THEN conjunct2, THEN conjunct2,
        THEN conjunct2, THEN conjunct2, THEN conjunct2, THEN mp, OF disjI2[OF s5]] .

  show ?thesis
    by (intro conjI) (rule a a0 up a2 b c d d1 e)+
qed

text \<open>
  The claim as stated fails for the raw object store: an address that carries neither
  domain raises no error, and a delete is issued with the whole address as the key.
\<close>

theorem delete_key_recovery_counterexample:
  "\<not> js_includes (js ''not-a-stored-url'') (js ''cdn.example.com'')
   \<and> \<not> js_includes (js ''not-a-stored-url'') (js ''.amazonaws.com/'')
   \<and> deleteFileFromS3 exampleEnv acceptingClient (js ''not-a-stored-url'') =
       (Inr (), [DeleteObject (js ''media'') (Some (js ''not-a-stored-url''))])"
  by code_simp

end
